theory Spec2Isabelle
  imports Main "HOL-Library.Word"
begin

section \<open>Data model (src/main.go, lines 61-73)\<close>

text \<open>
  The Go fields are \<^verbatim>\<open>int64\<close>, the counters and the remaining bursts \<^verbatim>\<open>int\<close>
  (64 bits on the usual targets). Both are 64-bit words: \<open>+\<close> and \<open>-\<close> wrap around as
  in Go, the comparisons of the source are the signed ones (\<open><s\<close>, \<open>\<le>s\<close>), and
  \<^const>\<open>sint\<close> reads a word as the integer that Go prints. The conversions
  \<^verbatim>\<open>int(...)\<close> and \<^verbatim>\<open>int64(...)\<close> are the identity.

  Indices of \<^verbatim>\<open>range\<close> loops are \<^typ>\<open>nat\<close>. The two variables that hold an index or
  -1 (\<^verbatim>\<open>ShortestJobIndex\<close>, \<^verbatim>\<open>lastGanttIndex\<close>) are only assigned -1 or a loop
  index and never computed with; they are \<^typ>\<open>int\<close>, and every slice access through
  them is checked.

  The \<^verbatim>\<open>float64\<close> accumulators \<^verbatim>\<open>totalWait\<close>, \<^verbatim>\<open>totalTurnaround\<close> and
  \<^verbatim>\<open>lastCompletion\<close> feed only the printed averages; they are never read back by the
  simulation, cannot fault, and are left out of the state.
\<close>

type_synonym int64 = "64 word"

record Process =
  ProcessID :: int64
  ArrivalTime :: int64
  BurstDuration :: int64
  Priority :: int64

record TimeSlice =
  PID :: int64
  Start :: int64
  Stop :: int64

text \<open>
  A schedule row is the seven strings \<^verbatim>\<open>fmt.Sprint\<close> of seven integers, in the
  order of the table header of \<^verbatim>\<open>outputSchedule\<close>: ID, Priority, Burst, Arrival,
  Wait, Turnaround, Exit. The row is kept as the seven integers. A slot of
  \<^verbatim>\<open>schedule\<close> that was never assigned is \<^verbatim>\<open>nil\<close>, here \<^const>\<open>None\<close>.
\<close>

record ScheduleRow =
  colID :: int64
  colPriority :: int64
  colBurst :: int64
  colArrival :: int64
  colWait :: int64
  colTurnaround :: int64
  colExit :: int64

text \<open>The only runtime fault of the schedulers: a slice index out of range.\<close>

datatype fault = IndexOutOfRange int

definition in_range :: "'a list \<Rightarrow> int \<Rightarrow> bool" where
  "in_range xs i \<longleftrightarrow> 0 \<le> i \<and> i < int (length xs)"

definition index :: "'a list \<Rightarrow> int \<Rightarrow> fault + 'a" where
  "index xs i = (if in_range xs i then Inr (xs ! nat i) else Inl (IndexOutOfRange i))"

text \<open>
  The part of the state that every scheduler has: the process table (a Go slice, shared
  with the caller), the schedule rows and the Gantt sequence.
\<close>

record sched =
  procs :: "Process list"
  schedule :: "ScheduleRow option list"
  gantt :: "TimeSlice list"


section \<open>First-come, first-serve (lines 81-131)\<close>

record fcfs_state = sched +
  serviceTime :: int64
  waitingTime :: int64

text \<open>The body of \<^verbatim>\<open>for i := range processes\<close>, lines 92-120.\<close>

definition FCFS_body :: "fcfs_state \<Rightarrow> nat \<Rightarrow> fcfs_state" where
  "FCFS_body s i =
    (let p = procs s ! i;
         waitingTime' = (if 0 <s ArrivalTime p then serviceTime s - ArrivalTime p
                         else waitingTime s);
         start = waitingTime' + ArrivalTime p;
         turnaround = BurstDuration p + waitingTime';
         completion = BurstDuration p + ArrivalTime p + waitingTime';
         serviceTime' = serviceTime s + BurstDuration p
     in s\<lparr> schedule := (schedule s)[i := Some
              \<lparr> colID = ProcessID p, colPriority = Priority p, colBurst = BurstDuration p,
                colArrival = ArrivalTime p, colWait = waitingTime',
                colTurnaround = turnaround, colExit = completion \<rparr>],
            gantt := gantt s @ [\<lparr> PID = ProcessID p, Start = start, Stop = serviceTime' \<rparr>],
            serviceTime := serviceTime',
            waitingTime := waitingTime' \<rparr>)"

definition FCFS_init :: "Process list \<Rightarrow> fcfs_state" where
  "FCFS_init ps =
    \<lparr> procs = ps, schedule = replicate (length ps) None, gantt = [],
      serviceTime = 0, waitingTime = 0 \<rparr>"

definition FCFSSchedule :: "Process list \<Rightarrow> fcfs_state" where
  "FCFSSchedule ps = foldl FCFS_body (FCFS_init ps) [0..<length ps]"


section \<open>Shortest-job-first and its priority variant (lines 134-320)\<close>

text \<open>
  \<^verbatim>\<open>SJFSchedule\<close> and \<^verbatim>\<open>SJFPrioritySchedule\<close> are the same text except for the scan
  that selects the process of the tick (lines 154-163 and 245-263). The state and the
  rest of the loop body are modelled once, with the scan as a parameter.
\<close>

record sjf_state = sched +
  RemainingBurst :: "int64 list"
  lastGanttIndex :: int
  lastGanttStartTime :: int64
  totalBurstTime :: int64
  tick :: int64

text \<open>Lines 148-151 (and 239-242): the total burst and the remaining bursts.\<close>

definition SJF_init_body :: "sjf_state \<Rightarrow> nat \<Rightarrow> sjf_state" where
  "SJF_init_body s i =
    s\<lparr> totalBurstTime := totalBurstTime s + BurstDuration (procs s ! i),
       RemainingBurst := (RemainingBurst s)[i := BurstDuration (procs s ! i)] \<rparr>"

definition SJF_init :: "Process list \<Rightarrow> sjf_state" where
  "SJF_init ps =
    foldl SJF_init_body
      \<lparr> procs = ps, schedule = replicate (length ps) None, gantt = [],
        RemainingBurst = replicate (length ps) 0,
        lastGanttIndex = - 1, lastGanttStartTime = 0, totalBurstTime = 0, tick = 0 \<rparr>
      [0..<length ps]"

text \<open>
  Lines 154-163: the scan of \<^verbatim>\<open>SJFSchedule\<close>. The accumulator is
  \<^verbatim>\<open>(ShortestJobIndex, ShortestJobBurst)\<close>, seeded with \<^verbatim>\<open>(-1, 100000)\<close>.
\<close>

definition SJF_scan_body ::
  "Process list \<Rightarrow> int64 list \<Rightarrow> int64 \<Rightarrow> int \<times> int64 \<Rightarrow> nat \<Rightarrow> int \<times> int64" where
  "SJF_scan_body ps rb t acc i =
    (case acc of (ShortestJobIndex, ShortestJobBurst) \<Rightarrow>
      if 0 <s rb ! i \<and> ArrivalTime (ps ! i) \<le>s t \<and> rb ! i \<le>s ShortestJobBurst
      then (int i, rb ! i)
      else (ShortestJobIndex, ShortestJobBurst))"

definition SJF_scan :: "Process list \<Rightarrow> int64 list \<Rightarrow> int64 \<Rightarrow> nat \<Rightarrow> int \<times> int64" where
  "SJF_scan ps rb t n = foldl (SJF_scan_body ps rb t) (- 1, 100000) [0..<n]"

definition SJF_select :: "Process list \<Rightarrow> int64 list \<Rightarrow> int64 \<Rightarrow> int" where
  "SJF_select ps rb t = fst (SJF_scan ps rb t (length ps))"

text \<open>
  Lines 245-263: the scan of \<^verbatim>\<open>SJFPrioritySchedule\<close>. The accumulator is
  \<^verbatim>\<open>(ShortestJobIndex, ShortestJobBurst, ShortestJobPriority)\<close>, seeded with
  \<^verbatim>\<open>(-1, 100000, 100000)\<close>. The first branch stores the \<^verbatim>\<open>BurstDuration\<close> field,
  the second the remaining burst.
\<close>

definition SJFP_scan_body ::
  "Process list \<Rightarrow> int64 list \<Rightarrow> int64 \<Rightarrow> int \<times> int64 \<times> int64 \<Rightarrow> nat
     \<Rightarrow> int \<times> int64 \<times> int64" where
  "SJFP_scan_body ps rb t acc i =
    (case acc of (ShortestJobIndex, ShortestJobBurst, ShortestJobPriority) \<Rightarrow>
      if 0 <s rb ! i \<and> ArrivalTime (ps ! i) \<le>s t then
        if Priority (ps ! i) \<le>s ShortestJobPriority \<and> Priority (ps ! i) <s ShortestJobPriority
        then (int i, BurstDuration (ps ! i), Priority (ps ! i))
        else if rb ! i <s ShortestJobBurst
        then (int i, rb ! i, Priority (ps ! i))
        else (ShortestJobIndex, ShortestJobBurst, ShortestJobPriority)
      else (ShortestJobIndex, ShortestJobBurst, ShortestJobPriority))"

definition SJFP_scan ::
  "Process list \<Rightarrow> int64 list \<Rightarrow> int64 \<Rightarrow> nat \<Rightarrow> int \<times> int64 \<times> int64" where
  "SJFP_scan ps rb t n = foldl (SJFP_scan_body ps rb t) (- 1, 100000, 100000) [0..<n]"

definition SJFP_select :: "Process list \<Rightarrow> int64 list \<Rightarrow> int64 \<Rightarrow> int" where
  "SJFP_select ps rb t = fst (SJFP_scan ps rb t (length ps))"

text \<open>
  Lines 166-182 (and 265-281): the Gantt bookkeeping of one tick. Both reads of
  \<^verbatim>\<open>processes[lastGanttIndex]\<close> are checked: Go panics on an index out of range.
\<close>

definition gantt_step :: "sjf_state \<Rightarrow> int \<Rightarrow> fault + sjf_state" where
  "gantt_step s ShortestJobIndex =
    (if lastGanttIndex s \<noteq> ShortestJobIndex \<or> tick s = totalBurstTime s - 1 then
       if tick s = totalBurstTime s - 1 then
         (case index (procs s) (lastGanttIndex s) of
            Inl e \<Rightarrow> Inl e
          | Inr p \<Rightarrow> Inr (s\<lparr> gantt := gantt s @
                [\<lparr> PID = ProcessID p, Start = lastGanttStartTime s, Stop = tick s + 1 \<rparr>],
              lastGanttStartTime := tick s, lastGanttIndex := ShortestJobIndex \<rparr>))
       else if lastGanttIndex s \<noteq> - 1 then
         (case index (procs s) (lastGanttIndex s) of
            Inl e \<Rightarrow> Inl e
          | Inr p \<Rightarrow> Inr (s\<lparr> gantt := gantt s @
                [\<lparr> PID = ProcessID p, Start = lastGanttStartTime s, Stop = tick s \<rparr>],
              lastGanttStartTime := tick s, lastGanttIndex := ShortestJobIndex \<rparr>))
       else Inr (s\<lparr> lastGanttStartTime := tick s, lastGanttIndex := ShortestJobIndex \<rparr>)
     else Inr s)"

text \<open>
  Lines 185-211 (and 284-309): the tick is advanced; an idle tick extends the horizon,
  otherwise the selected process runs for one tick and, when it is done, its row is
  written. \<^verbatim>\<open>RemainingBurst\<close>, \<^verbatim>\<open>processes\<close> and \<^verbatim>\<open>schedule\<close> are indexed by
  \<^verbatim>\<open>ShortestJobIndex\<close>; each access is checked.
\<close>

definition advance :: "sjf_state \<Rightarrow> int \<Rightarrow> fault + sjf_state" where
  "advance s ShortestJobIndex =
    (let s1 = s\<lparr> tick := tick s + 1 \<rparr> in
     if ShortestJobIndex = - 1 then Inr (s1\<lparr> totalBurstTime := totalBurstTime s1 + 1 \<rparr>)
     else
       (case index (RemainingBurst s1) ShortestJobIndex of
          Inl e \<Rightarrow> Inl e
        | Inr r \<Rightarrow>
           (let s2 = s1\<lparr> RemainingBurst := (RemainingBurst s1)[nat ShortestJobIndex := r - 1] \<rparr> in
            if r - 1 = 0 then
              (case index (procs s2) ShortestJobIndex of
                 Inl e \<Rightarrow> Inl e
               | Inr p \<Rightarrow>
                  if in_range (schedule s2) ShortestJobIndex then
                    Inr (s2\<lparr> schedule := (schedule s2)[nat ShortestJobIndex := Some
                      \<lparr> colID = ProcessID p, colPriority = Priority p,
                        colBurst = BurstDuration p, colArrival = ArrivalTime p,
                        colWait = tick s2 - ArrivalTime p - BurstDuration p,
                        colTurnaround = tick s2 - ArrivalTime p,
                        colExit = tick s2 \<rparr>] \<rparr>)
                  else Inl (IndexOutOfRange ShortestJobIndex))
            else Inr s2)))"

type_synonym selector = "Process list \<Rightarrow> int64 list \<Rightarrow> int64 \<Rightarrow> int"

definition tick_step :: "selector \<Rightarrow> sjf_state \<Rightarrow> fault + sjf_state" where
  "tick_step sel s =
    (let ShortestJobIndex = sel (procs s) (RemainingBurst s) (tick s) in
     case gantt_step s ShortestJobIndex of
       Inl e \<Rightarrow> Inl e
     | Inr s1 \<Rightarrow> advance s1 ShortestJobIndex)"

text \<open>
  The loop \<^verbatim>\<open>for tick := 0; tick < totalBurstTime; { ... }\<close>. The horizon grows on idle
  ticks, so the number of ticks is not bounded by the work in the table. The loop is a
  partial function: \<^const>\<open>None\<close> is a run that never returns, \<open>Some (Inl e)\<close> a run
  that panics, \<open>Some (Inr s)\<close> a run that reaches the output.
\<close>

partial_function (option) tick_loop :: "selector \<Rightarrow> sjf_state \<Rightarrow> (fault + sjf_state) option" where
  "tick_loop sel s =
    (if tick s <s totalBurstTime s then
       (case tick_step sel s of
          Inl e \<Rightarrow> Some (Inl e)
        | Inr s' \<Rightarrow> tick_loop sel s')
     else Some (Inr s))"

definition SJFSchedule :: "Process list \<Rightarrow> (fault + sjf_state) option" where
  "SJFSchedule ps = tick_loop SJF_select (SJF_init ps)"

definition SJFPrioritySchedule :: "Process list \<Rightarrow> (fault + sjf_state) option" where
  "SJFPrioritySchedule ps = tick_loop SJFP_select (SJF_init ps)"


section \<open>Round-robin (lines 324-444)\<close>

record rr_state = fcfs_state +
  OGBurst :: "int64 list"
  passes :: int

definition QuantumTime :: int64 where
  "QuantumTime = 3"

text \<open>
  The body of the inner loop, lines 345-429. \<^verbatim>\<open>waitingTime\<close> is assigned twice; the row
  holds the second value. The table is written in place: \<^verbatim>\<open>processes[i].BurstDuration\<close>.
\<close>

definition RR_body :: "rr_state \<Rightarrow> nat \<Rightarrow> rr_state" where
  "RR_body s i =
    (let p = procs s ! i in
     if QuantumTime \<le>s BurstDuration p then
       (let waitingTime1 = serviceTime s - ArrivalTime p;
            OGBurst' = (if OGBurst s ! i = 0 then (OGBurst s)[i := BurstDuration p]
                        else OGBurst s);
            start = waitingTime1 + ArrivalTime p;
            turnaround = QuantumTime + waitingTime1;
            completion = QuantumTime + ArrivalTime p + waitingTime1;
            waitingTime2 = turnaround - OGBurst' ! i;
            serviceTime' = serviceTime s + QuantumTime
        in s\<lparr> procs := (procs s)[i := p\<lparr> BurstDuration := BurstDuration p - QuantumTime \<rparr>],
               schedule := (schedule s)[i := Some
                 \<lparr> colID = ProcessID p, colPriority = Priority p, colBurst = OGBurst' ! i,
                   colArrival = ArrivalTime p, colWait = waitingTime2,
                   colTurnaround = turnaround, colExit = completion \<rparr>],
               gantt := gantt s @ [\<lparr> PID = ProcessID p, Start = start, Stop = serviceTime' \<rparr>],
               serviceTime := serviceTime',
               waitingTime := waitingTime2,
               OGBurst := OGBurst' \<rparr>)
     else if BurstDuration p <s QuantumTime \<and> 0 <s BurstDuration p then
       (let waitingTime1 = serviceTime s - ArrivalTime p;
            OGBurst' = (if OGBurst s ! i = 0 then (OGBurst s)[i := BurstDuration p]
                        else OGBurst s);
            start = waitingTime1 + ArrivalTime p;
            turnaround = BurstDuration p + waitingTime1;
            completion = BurstDuration p + ArrivalTime p + waitingTime1;
            waitingTime2 = turnaround - OGBurst' ! i;
            serviceTime' = serviceTime s + BurstDuration p
        in s\<lparr> procs := (procs s)[i := p\<lparr> BurstDuration := BurstDuration p - BurstDuration p \<rparr>],
               schedule := (schedule s)[i := Some
                 \<lparr> colID = ProcessID p, colPriority = Priority p, colBurst = OGBurst' ! i,
                   colArrival = ArrivalTime p, colWait = waitingTime2,
                   colTurnaround = turnaround, colExit = completion \<rparr>],
               gantt := gantt s @ [\<lparr> PID = ProcessID p, Start = start, Stop = serviceTime' \<rparr>],
               serviceTime := serviceTime',
               waitingTime := waitingTime2,
               OGBurst := OGBurst' \<rparr>)
     else s)"

definition RR_pass :: "rr_state \<Rightarrow> rr_state" where
  "RR_pass s = foldl RR_body s [0..<length (procs s)]"

text \<open>
  The outer loop \<^verbatim>\<open>for tick < 1000\<close>, lines 342-433. Its counter, here \<^const>\<open>passes\<close>,
  goes from 0 to 1000 in steps of one and cannot wrap; it is an \<^typ>\<open>int\<close>.
\<close>

function RR_loop :: "rr_state \<Rightarrow> rr_state" where
  "RR_loop s = (if passes s < 1000 then RR_loop ((RR_pass s)\<lparr> passes := passes s + 1 \<rparr>) else s)"
  by pat_completeness auto
termination
  by (relation "measure (\<lambda>s. nat (1000 - passes s))") auto

definition RR_init :: "Process list \<Rightarrow> rr_state" where
  "RR_init ps =
    \<lparr> procs = ps, schedule = replicate (length ps) None, gantt = [],
      serviceTime = 0, waitingTime = 0,
      OGBurst = replicate (length ps) 0, passes = 0 \<rparr>"

definition RRSchedule :: "Process list \<Rightarrow> rr_state" where
  "RRSchedule ps = RR_loop (RR_init ps)"


section \<open>Specification-side definitions and invariants\<close>


subsection \<open>First-come, first-serve\<close>

text \<open>
  The waiting time of process \<open>i\<close> in the words of the specification: the service time
  so far (the bursts of the processes before \<open>i\<close>) minus the arrival time when the
  arrival time is positive, otherwise the waiting time of the previous process, and 0
  when there is none.
\<close>

fun FCFS_wait :: "Process list \<Rightarrow> nat \<Rightarrow> int64" where
  "FCFS_wait ps 0 =
     (if 0 <s ArrivalTime (ps ! 0) then 0 - ArrivalTime (ps ! 0) else 0)"
| "FCFS_wait ps (Suc i) =
     (if 0 <s ArrivalTime (ps ! Suc i)
      then sum_list (map BurstDuration (take (Suc i) ps)) - ArrivalTime (ps ! Suc i)
      else FCFS_wait ps i)"

text \<open>
  The row and the Gantt slice that follow from that waiting time: start = waiting time +
  arrival, completion = start + burst, and the slice stops at the service time after
  process \<open>i\<close>.
\<close>

definition FCFS_row :: "Process list \<Rightarrow> nat \<Rightarrow> ScheduleRow" where
  "FCFS_row ps i =
    \<lparr> colID = ProcessID (ps ! i), colPriority = Priority (ps ! i),
      colBurst = BurstDuration (ps ! i), colArrival = ArrivalTime (ps ! i),
      colWait = FCFS_wait ps i,
      colTurnaround = BurstDuration (ps ! i) + FCFS_wait ps i,
      colExit = (FCFS_wait ps i + ArrivalTime (ps ! i)) + BurstDuration (ps ! i) \<rparr>"

definition FCFS_slice :: "Process list \<Rightarrow> nat \<Rightarrow> TimeSlice" where
  "FCFS_slice ps i =
    \<lparr> PID = ProcessID (ps ! i), Start = FCFS_wait ps i + ArrivalTime (ps ! i),
      Stop = sum_list (map BurstDuration (take (Suc i) ps)) \<rparr>"

text \<open>
  The state of \<^verbatim>\<open>FCFSSchedule\<close> after the first \<open>n\<close> processes.
\<close>

definition FCFS_inv :: "Process list \<Rightarrow> nat \<Rightarrow> fcfs_state \<Rightarrow> bool" where
  "FCFS_inv ps n s \<longleftrightarrow>
     procs s = ps \<and> length (schedule s) = length ps \<and>
     serviceTime s = sum_list (map BurstDuration (take n ps)) \<and>
     waitingTime s = (if n = 0 then 0 else FCFS_wait ps (n - 1)) \<and>
     gantt s = map (FCFS_slice ps) [0..<n] \<and>
     (\<forall>i<n. schedule s ! i = Some (FCFS_row ps i)) \<and>
     (\<forall>i. n \<le> i \<longrightarrow> i < length ps \<longrightarrow> schedule s ! i = None)"

text \<open>
  The three processes of the example: (ID 1, arrival 0, burst 5), (ID 2, arrival 2,
  burst 3), (ID 3, arrival 4, burst 2).
\<close>

definition FCFS_example :: "Process list" where
  "FCFS_example =
    [\<lparr> ProcessID = 1, ArrivalTime = 0, BurstDuration = 5, Priority = 0 \<rparr>,
     \<lparr> ProcessID = 2, ArrivalTime = 2, BurstDuration = 3, Priority = 0 \<rparr>,
     \<lparr> ProcessID = 3, ArrivalTime = 4, BurstDuration = 2, Priority = 0 \<rparr>]"



subsection \<open>First-come, first-serve over the integers\<close>

text \<open>
  The same recurrence over the integers, where nothing wraps: the service time so far,
  and the waiting time of process \<open>i\<close>.
\<close>

definition in_int64 :: "int \<Rightarrow> bool" where
  "in_int64 k \<longleftrightarrow> - (2 ^ 63) \<le> k \<and> k < 2 ^ 63"

definition service_int :: "Process list \<Rightarrow> nat \<Rightarrow> int" where
  "service_int ps i = sum_list (map (\<lambda>p. sint (BurstDuration p)) (take i ps))"

fun FCFS_wait_int :: "Process list \<Rightarrow> nat \<Rightarrow> int" where
  "FCFS_wait_int ps 0 =
     (if 0 < sint (ArrivalTime (ps ! 0)) then 0 - sint (ArrivalTime (ps ! 0)) else 0)"
| "FCFS_wait_int ps (Suc i) =
     (if 0 < sint (ArrivalTime (ps ! Suc i))
      then service_int ps (Suc i) - sint (ArrivalTime (ps ! Suc i))
      else FCFS_wait_int ps i)"

text \<open>
  Two processes whose bursts add up to \<open>2^63\<close>: (ID 1, arrival 0, burst \<open>2^63 - 1\<close>)
  and (ID 2, arrival 1, burst 1).
\<close>

definition overflow_pair :: "Process list" where
  "overflow_pair =
    [\<lparr> ProcessID = 1, ArrivalTime = 0, BurstDuration = 9223372036854775807, Priority = 0 \<rparr>,
     \<lparr> ProcessID = 2, ArrivalTime = 1, BurstDuration = 1, Priority = 0 \<rparr>]"


subsection \<open>Round-robin\<close>

text \<open>
  The two branches of the body of the inner loop are the same text up to the work done
  in the visit: the quantum in the first, the remaining burst in the second.
  \<open>RR_visit s i q\<close> is that text with \<open>q\<close> for the work, \<open>RR_work\<close> the work of a visit.
\<close>

definition RR_visit :: "rr_state \<Rightarrow> nat \<Rightarrow> int64 \<Rightarrow> rr_state" where
  "RR_visit s i q =
    (let p = procs s ! i;
         og = (if OGBurst s ! i = 0 then BurstDuration p else OGBurst s ! i)
     in s\<lparr> procs := (procs s)[i := p\<lparr> BurstDuration := BurstDuration p - q \<rparr>],
           schedule := (schedule s)[i := Some
             \<lparr> colID = ProcessID p, colPriority = Priority p, colBurst = og,
               colArrival = ArrivalTime p,
               colWait = q + (serviceTime s - ArrivalTime p) - og,
               colTurnaround = q + (serviceTime s - ArrivalTime p),
               colExit = q + ArrivalTime p + (serviceTime s - ArrivalTime p) \<rparr>],
           gantt := gantt s @
             [\<lparr> PID = ProcessID p, Start = serviceTime s - ArrivalTime p + ArrivalTime p,
                Stop = serviceTime s + q \<rparr>],
           serviceTime := serviceTime s + q,
           waitingTime := q + (serviceTime s - ArrivalTime p) - og,
           OGBurst := (OGBurst s)[i := og] \<rparr>)"

definition RR_work :: "rr_state \<Rightarrow> nat \<Rightarrow> int64" where
  "RR_work s i = (if QuantumTime \<le>s BurstDuration (procs s ! i) then QuantumTime
                  else BurstDuration (procs s ! i))"

text \<open>
  No process has work left: a pass changes nothing.
\<close>

definition RR_idle :: "rr_state \<Rightarrow> bool" where
  "RR_idle s \<longleftrightarrow> (\<forall>i<length (procs s). BurstDuration (procs s ! i) \<le>s 0)"

text \<open>
  A row of process \<open>p\<close> of the input table is consistent: it carries the burst and the
  arrival time of \<open>p\<close>, Turnaround = Wait + Burst, Exit = Arrival + Wait + Burst and
  Turnaround = Exit - Arrival.
\<close>

definition row_consistent :: "Process \<Rightarrow> ScheduleRow \<Rightarrow> bool" where
  "row_consistent p row \<longleftrightarrow>
     colBurst row = BurstDuration p \<and> colArrival row = ArrivalTime p \<and>
     colTurnaround row = colWait row + colBurst row \<and>
     colExit row = colArrival row + colWait row + colBurst row \<and>
     colTurnaround row = colExit row - colArrival row"

text \<open>
  What \<^verbatim>\<open>RRSchedule\<close> keeps of the input table \<open>ps\<close>.
\<close>

definition RR_frame :: "Process list \<Rightarrow> rr_state \<Rightarrow> bool" where
  "RR_frame ps s \<longleftrightarrow>
     length (procs s) = length ps \<and>
     (\<forall>i<length ps.
        ProcessID (procs s ! i) = ProcessID (ps ! i) \<and>
        ArrivalTime (procs s ! i) = ArrivalTime (ps ! i) \<and>
        Priority (procs s ! i) = Priority (ps ! i) \<and>
        BurstDuration (procs s ! i) \<le>s BurstDuration (ps ! i))"

text \<open>
  A process that was never visited has \<^verbatim>\<open>OGBurst[i] = 0\<close>, no row and its burst
  untouched; a visited one has its input burst in \<^verbatim>\<open>OGBurst[i]\<close> and a consistent row.
\<close>

definition RR_rows :: "Process list \<Rightarrow> rr_state \<Rightarrow> bool" where
  "RR_rows ps s \<longleftrightarrow>
     length (procs s) = length ps \<and> length (schedule s) = length ps \<and>
     length (OGBurst s) = length ps \<and>
     (\<forall>i<length ps.
        ArrivalTime (procs s ! i) = ArrivalTime (ps ! i) \<and>
        (if OGBurst s ! i = 0
         then schedule s ! i = None \<and> BurstDuration (procs s ! i) = BurstDuration (ps ! i)
         else OGBurst s ! i = BurstDuration (ps ! i) \<and>
              (\<exists>row. schedule s ! i = Some row \<and> row_consistent (ps ! i) row)))"

text \<open>
  The Gantt sequence of round-robin: every slice starts where the one before it stops,
  the first at 0, the last stops at the service time so far, and every slice is as long
  as the quantum or shorter and positive.
\<close>

definition contiguous :: "TimeSlice list \<Rightarrow> bool" where
  "contiguous g \<longleftrightarrow> (\<forall>j. Suc j < length g \<longrightarrow> Start (g ! Suc j) = Stop (g ! j))"

definition quantum_sized :: "TimeSlice \<Rightarrow> bool" where
  "quantum_sized sl \<longleftrightarrow>
     Stop sl - Start sl = QuantumTime \<or>
     (0 <s Stop sl - Start sl \<and> Stop sl - Start sl <s QuantumTime)"

definition RR_gantt :: "rr_state \<Rightarrow> bool" where
  "RR_gantt s \<longleftrightarrow>
     (if gantt s = [] then serviceTime s = 0
      else Start (hd (gantt s)) = 0 \<and> Stop (last (gantt s)) = serviceTime s) \<and>
     contiguous (gantt s) \<and> (\<forall>sl\<in>set (gantt s). quantum_sized sl)"


subsection \<open>Shortest-job-first: reachable states, eligibility, invariants\<close>

text \<open>
  The states that the loop of \<^verbatim>\<open>SJFSchedule\<close> (or of \<^verbatim>\<open>SJFPrioritySchedule\<close>) goes
  through on the table \<open>ps\<close>: the state before the first tick, and the state after each
  tick that the loop runs and that does not panic.
\<close>

inductive tick_reach :: "selector \<Rightarrow> Process list \<Rightarrow> sjf_state \<Rightarrow> bool"
  for sel :: selector and ps :: "Process list" where
  start: "tick_reach sel ps (SJF_init ps)"
| step: "tick_reach sel ps s \<Longrightarrow> tick s <s totalBurstTime s \<Longrightarrow> tick_step sel s = Inr s'
         \<Longrightarrow> tick_reach sel ps s'"

text \<open>A process is eligible at a tick when it has work left and has arrived.\<close>

definition eligible :: "Process list \<Rightarrow> int64 list \<Rightarrow> int64 \<Rightarrow> nat \<Rightarrow> bool" where
  "eligible ps rb t i \<longleftrightarrow> i < length ps \<and> 0 <s rb ! i \<and> ArrivalTime (ps ! i) \<le>s t"

text \<open>
  The accumulator of the scan of \<^verbatim>\<open>SJFSchedule\<close> after the first \<open>n\<close> processes.
\<close>

definition SJF_best ::
  "Process list \<Rightarrow> int64 list \<Rightarrow> int64 \<Rightarrow> nat \<Rightarrow> int \<times> int64 \<Rightarrow> bool" where
  "SJF_best ps rb t n acc \<longleftrightarrow>
     (case acc of (idx, best) \<Rightarrow>
        best \<le>s 100000 \<and>
        (idx = - 1 \<longrightarrow> best = 100000 \<and> (\<forall>i<n. eligible ps rb t i \<longrightarrow> 100000 <s rb ! i)) \<and>
        (idx \<noteq> - 1 \<longrightarrow> 0 \<le> idx \<and> nat idx < n \<and> eligible ps rb t (nat idx) \<and>
           rb ! nat idx = best \<and>
           (\<forall>i<n. eligible ps rb t i \<longrightarrow> best \<le>s rb ! i \<and> (rb ! i = best \<longrightarrow> i \<le> nat idx))))"

text \<open>
  The table is the input table, the slices have its length, and every row written so
  far is consistent.
\<close>

definition SJF_rows :: "Process list \<Rightarrow> sjf_state \<Rightarrow> bool" where
  "SJF_rows ps s \<longleftrightarrow>
     procs s = ps \<and> length (schedule s) = length ps \<and>
     length (RemainingBurst s) = length ps \<and>
     (\<forall>i<length ps. \<forall>row. schedule s ! i = Some row \<longrightarrow> row_consistent (ps ! i) row)"


subsection \<open>Consistent rows and the runs of the example\<close>

text \<open>
  The identities of a row read over the integers, that is, on the numbers that are
  printed: they can only hold when the two sums fit into 64 bits.
\<close>

definition row_fits :: "ScheduleRow \<Rightarrow> bool" where
  "row_fits row \<longleftrightarrow>
     in_int64 (sint (colWait row) + sint (colBurst row)) \<and>
     in_int64 (sint (colArrival row) + sint (colWait row) + sint (colBurst row))"

definition row_consistent_int :: "ScheduleRow \<Rightarrow> bool" where
  "row_consistent_int row \<longleftrightarrow>
     sint (colTurnaround row) = sint (colWait row) + sint (colBurst row) \<and>
     sint (colExit row) = sint (colArrival row) + sint (colWait row) + sint (colBurst row) \<and>
     sint (colTurnaround row) = sint (colExit row) - sint (colArrival row)"

text \<open>
  A schedule has one slot per process, and every row in it is consistent for the process
  of its slot: in the 64-bit arithmetic of the code, and over the integers when the sums
  of the row fit.
\<close>

definition rows_consistent :: "Process list \<Rightarrow> ScheduleRow option list \<Rightarrow> bool" where
  "rows_consistent ps sch \<longleftrightarrow>
     length sch = length ps \<and>
     (\<forall>i<length ps. \<forall>row. sch ! i = Some row \<longrightarrow>
        row_consistent (ps ! i) row \<and> (row_fits row \<longrightarrow> row_consistent_int row))"

text \<open>
  The second row of \<^verbatim>\<open>FCFSSchedule\<close> on two processes, (ID 1, arrival 0, burst
  \<open>2^63 - 1\<close>) and (ID 2, arrival 1, burst 1): the completion time has wrapped around.
\<close>

definition overflow_row :: ScheduleRow where
  "overflow_row =
    \<lparr> colID = 2, colPriority = 0, colBurst = 1, colArrival = 1,
      colWait = 9223372036854775806, colTurnaround = 9223372036854775807,
      colExit = 9223372036854775808 \<rparr>"

text \<open>
  The final states of \<^verbatim>\<open>SJFSchedule\<close> (also of \<^verbatim>\<open>SJFPrioritySchedule\<close>) and of
  \<^verbatim>\<open>RRSchedule\<close> on the three processes of the example.
\<close>

definition SJF_example_final :: sjf_state where
  "SJF_example_final =
    \<lparr> procs = FCFS_example,
      schedule =
        [Some \<lparr> colID = 1, colPriority = 0, colBurst = 5, colArrival = 0,
                colWait = 5, colTurnaround = 10, colExit = 10 \<rparr>,
         Some \<lparr> colID = 2, colPriority = 0, colBurst = 3, colArrival = 2,
                colWait = 0, colTurnaround = 3, colExit = 5 \<rparr>,
         Some \<lparr> colID = 3, colPriority = 0, colBurst = 2, colArrival = 4,
                colWait = 1, colTurnaround = 3, colExit = 7 \<rparr>],
      gantt =
        [\<lparr> PID = 1, Start = 0, Stop = 2 \<rparr>, \<lparr> PID = 2, Start = 2, Stop = 5 \<rparr>,
         \<lparr> PID = 3, Start = 5, Stop = 7 \<rparr>, \<lparr> PID = 1, Start = 7, Stop = 10 \<rparr>],
      RemainingBurst = [0, 0, 0], lastGanttIndex = 0, lastGanttStartTime = 9,
      totalBurstTime = 10, tick = 10 \<rparr>"

definition RR_example_final :: rr_state where
  "RR_example_final =
    \<lparr> procs =
        [\<lparr> ProcessID = 1, ArrivalTime = 0, BurstDuration = 0, Priority = 0 \<rparr>,
         \<lparr> ProcessID = 2, ArrivalTime = 2, BurstDuration = 0, Priority = 0 \<rparr>,
         \<lparr> ProcessID = 3, ArrivalTime = 4, BurstDuration = 0, Priority = 0 \<rparr>],
      schedule =
        [Some \<lparr> colID = 1, colPriority = 0, colBurst = 5, colArrival = 0,
                colWait = 5, colTurnaround = 10, colExit = 10 \<rparr>,
         Some \<lparr> colID = 2, colPriority = 0, colBurst = 3, colArrival = 2,
                colWait = 1, colTurnaround = 4, colExit = 6 \<rparr>,
         Some \<lparr> colID = 3, colPriority = 0, colBurst = 2, colArrival = 4,
                colWait = 2, colTurnaround = 4, colExit = 8 \<rparr>],
      gantt =
        [\<lparr> PID = 1, Start = 0, Stop = 3 \<rparr>, \<lparr> PID = 2, Start = 3, Stop = 6 \<rparr>,
         \<lparr> PID = 3, Start = 6, Stop = 8 \<rparr>, \<lparr> PID = 1, Start = 8, Stop = 10 \<rparr>],
      serviceTime = 10, waitingTime = 5, OGBurst = [5, 3, 2], passes = 1000 \<rparr>"


subsection \<open>Concrete inputs\<close>

text \<open>
  One process with burst 7 and arrival 0; one process with burst 1; two processes that
  are eligible at tick 0, the first with the lower priority value and the longer burst.
\<close>

definition RR_single :: "int64 \<Rightarrow> int64 \<Rightarrow> Process" where
  "RR_single pid pr = \<lparr> ProcessID = pid, ArrivalTime = 0, BurstDuration = 7, Priority = pr \<rparr>"

definition unit_job :: "int64 \<Rightarrow> Process" where
  "unit_job a = \<lparr> ProcessID = 1, ArrivalTime = a, BurstDuration = 1, Priority = 0 \<rparr>"

definition priority_pair :: "Process list" where
  "priority_pair =
    [\<lparr> ProcessID = 1, ArrivalTime = 0, BurstDuration = 5, Priority = 1 \<rparr>,
     \<lparr> ProcessID = 2, ArrivalTime = 0, BurstDuration = 3, Priority = 2 \<rparr>]"

text \<open>
  One process whose burst is above the bound 100000 that the scans start from.
\<close>

definition big_job :: Process where
  "big_job = \<lparr> ProcessID = 1, ArrivalTime = 0, BurstDuration = 100001, Priority = 0 \<rparr>"


subsection \<open>The burst recorded by the priority scan; a burst above the bound\<close>

text \<open>
  Two processes, (ID 1, arrival 0, burst 5, priority 1) and (ID 2, arrival 3, burst 3,
  priority 2), and the state of \<^verbatim>\<open>SJFPrioritySchedule\<close> on them before tick 3: process 1
  has run for three ticks.
\<close>

definition stale_pair :: "Process list" where
  "stale_pair =
    [\<lparr> ProcessID = 1, ArrivalTime = 0, BurstDuration = 5, Priority = 1 \<rparr>,
     \<lparr> ProcessID = 2, ArrivalTime = 3, BurstDuration = 3, Priority = 2 \<rparr>]"

definition stale_state :: sjf_state where
  "stale_state = (SJF_init stale_pair)\<lparr> RemainingBurst := [2, 3], lastGanttIndex := 0, tick := 3 \<rparr>"

text \<open>
  The scan of \<^verbatim>\<open>SJFPrioritySchedule\<close> in the words of the specification: the burst
  recorded for the best candidate is its remaining burst, whichever branch took it.
\<close>

definition SJFP_claimed_body ::
  "Process list \<Rightarrow> int64 list \<Rightarrow> int64 \<Rightarrow> int \<times> int64 \<times> int64 \<Rightarrow> nat
     \<Rightarrow> int \<times> int64 \<times> int64" where
  "SJFP_claimed_body ps rb t acc i =
    (case acc of (best, bestRemaining, bestPriority) \<Rightarrow>
      if 0 <s rb ! i \<and> ArrivalTime (ps ! i) \<le>s t then
        if Priority (ps ! i) <s bestPriority
        then (int i, rb ! i, Priority (ps ! i))
        else if rb ! i <s bestRemaining
        then (int i, rb ! i, Priority (ps ! i))
        else (best, bestRemaining, bestPriority)
      else (best, bestRemaining, bestPriority))"

definition SJFP_claimed_select :: "Process list \<Rightarrow> int64 list \<Rightarrow> int64 \<Rightarrow> int" where
  "SJFP_claimed_select ps rb t =
     fst (foldl (SJFP_claimed_body ps rb t) (- 1, 100000, 100000) [0..<length ps])"

text \<open>
  On one process with burst 100001 no tick ever selects the process: whatever the tick,
  the scan returns -1, and every state that the loop goes through has the remaining
  burst untouched and neither a row nor a Gantt slice.
\<close>

definition long_job_waiting :: "sjf_state \<Rightarrow> bool" where
  "long_job_waiting s \<longleftrightarrow>
     procs s = [big_job] \<and> RemainingBurst s = [100001] \<and> schedule s = [None] \<and>
     gantt s = [] \<and> lastGanttIndex s = - 1 \<and> totalBurstTime s = tick s + 100001"


subsection \<open>The slice that wraps around\<close>

text \<open>
  The second Gantt slice of \<^verbatim>\<open>FCFSSchedule\<close> on these two processes: it stops at
  \<open>2^63\<close> wrapped around, which reads \<open>- 2^63\<close>.
\<close>

definition overflow_slice :: TimeSlice where
  "overflow_slice = \<lparr> PID = 2, Start = 9223372036854775807, Stop = 9223372036854775808 \<rparr>"


section \<open>First-come, first-serve: the recurrence of the rows\<close>

lemma FCFS_wait_step:
  "FCFS_wait ps n =
     (if 0 <s ArrivalTime (ps ! n)
      then sum_list (map BurstDuration (take n ps)) - ArrivalTime (ps ! n)
      else if n = 0 then 0 else FCFS_wait ps (n - 1))"
  by (cases n) simp_all

lemma FCFS_inv_init: "FCFS_inv ps 0 (FCFS_init ps)"
  by (simp add: FCFS_inv_def FCFS_init_def)

lemma FCFS_inv_body:
  assumes inv: "FCFS_inv ps n s" and n: "n < length ps"
  shows "FCFS_inv ps (Suc n) (FCFS_body s n)"
proof -
  from inv have p: "procs s = ps" and l: "length (schedule s) = length ps"
    and st: "serviceTime s = sum_list (map BurstDuration (take n ps))"
    and wt: "waitingTime s = (if n = 0 then 0 else FCFS_wait ps (n - 1))"
    and g: "gantt s = map (FCFS_slice ps) [0..<n]"
    and rows: "\<forall>i<n. schedule s ! i = Some (FCFS_row ps i)"
    and rest: "\<forall>i. n \<le> i \<longrightarrow> i < length ps \<longrightarrow> schedule s ! i = None"
    by (simp_all add: FCFS_inv_def)
  have w: "(if 0 <s ArrivalTime (ps ! n) then serviceTime s - ArrivalTime (ps ! n)
            else waitingTime s) = FCFS_wait ps n"
    by (subst FCFS_wait_step [of ps n]) (simp add: st wt)
  have sum: "sum_list (map BurstDuration (take (Suc n) ps)) =
             sum_list (map BurstDuration (take n ps)) + BurstDuration (ps ! n)"
    using n by (simp add: take_Suc_conv_app_nth)
  have row: "schedule (FCFS_body s n) = (schedule s)[n := Some (FCFS_row ps n)]"
    using w by (simp add: FCFS_body_def Let_def p FCFS_row_def add.commute add.left_commute)
  have gan: "gantt (FCFS_body s n) = gantt s @ [FCFS_slice ps n]"
    using w by (simp add: FCFS_body_def Let_def p FCFS_slice_def st sum)
  have "procs (FCFS_body s n) = ps"
    by (simp add: FCFS_body_def Let_def p)
  moreover have "length (schedule (FCFS_body s n)) = length ps"
    by (simp add: row l)
  moreover have "serviceTime (FCFS_body s n) = sum_list (map BurstDuration (take (Suc n) ps))"
    by (simp add: FCFS_body_def Let_def p st sum)
  moreover have "waitingTime (FCFS_body s n) = FCFS_wait ps n"
    using w by (simp add: FCFS_body_def Let_def p)
  moreover have "gantt (FCFS_body s n) = map (FCFS_slice ps) [0..<Suc n]"
    by (simp add: gan g)
  moreover have "\<forall>i<Suc n. schedule (FCFS_body s n) ! i = Some (FCFS_row ps i)"
    using rows n l by (auto simp: row nth_list_update less_Suc_eq)
  moreover have "\<forall>i. Suc n \<le> i \<longrightarrow> i < length ps \<longrightarrow> schedule (FCFS_body s n) ! i = None"
    using rest by (simp add: row)
  ultimately show ?thesis
    by (simp add: FCFS_inv_def)
qed

lemma FCFS_inv_prefix:
  "n \<le> length ps \<Longrightarrow> FCFS_inv ps n (foldl FCFS_body (FCFS_init ps) [0..<n])"
proof (induction n)
  case 0
  show ?case by (simp add: FCFS_inv_init)
next
  case (Suc n)
  then show ?case by (simp add: FCFS_inv_body)
qed

lemma FCFS_inv_final: "FCFS_inv ps (length ps) (FCFSSchedule ps)"
  unfolding FCFSSchedule_def by (rule FCFS_inv_prefix) simp

lemma FCFS_example_run:
  "map (map_option colWait) (schedule (FCFSSchedule FCFS_example)) = [Some 0, Some 3, Some 4]"
  "map (map_option colExit) (schedule (FCFSSchedule FCFS_example)) = [Some 5, Some 8, Some 10]"
  by (simp_all add: FCFSSchedule_def FCFS_example_def FCFS_init_def FCFS_body_def
      upt_rec [of 0] upt_rec [of 1] upt_rec [of 2] upt_rec [of 3] Let_def word_sless_alt)

lemma sint_of_int_fits: "in_int64 k \<Longrightarrow> sint (word_of_int k :: int64) = k"
  by (simp add: sint_sbintrunc' in_int64_def signed_take_bit_int_eq_self)

lemma of_int_sint_word: "word_of_int (sint a) = (a :: int64)"
  by simp

lemma sum_list_of_int:
  "sum_list (map f xs) = (word_of_int (sum_list (map (\<lambda>p. sint (f p)) xs)) :: int64)"
  by (induction xs) simp_all

lemma service_of_int:
  "sum_list (map BurstDuration (take i ps)) = (word_of_int (service_int ps i) :: int64)"
  unfolding service_int_def by (rule sum_list_of_int)

lemma FCFS_wait_of_int: "FCFS_wait ps i = word_of_int (FCFS_wait_int ps i)"
proof (induction i)
  case 0
  show ?case by (simp add: word_sless_alt)
next
  case (Suc i)
  then show ?case by (simp add: word_sless_alt service_of_int)
qed

text \<open>
  What the code prints is the value of the integer formula whenever that value fits
  into 64 bits.
\<close>

lemma FCFS_int_reading:
  shows "in_int64 (FCFS_wait_int ps i) \<Longrightarrow> sint (FCFS_wait ps i) = FCFS_wait_int ps i"
    and "in_int64 (FCFS_wait_int ps i + sint (ArrivalTime (ps ! i))) \<Longrightarrow>
         sint (Start (FCFS_slice ps i)) = FCFS_wait_int ps i + sint (ArrivalTime (ps ! i))"
    and "in_int64 (FCFS_wait_int ps i + sint (ArrivalTime (ps ! i)) + sint (BurstDuration (ps ! i))) \<Longrightarrow>
         sint (colExit (FCFS_row ps i)) =
           FCFS_wait_int ps i + sint (ArrivalTime (ps ! i)) + sint (BurstDuration (ps ! i))"
    and "in_int64 (service_int ps (Suc i)) \<Longrightarrow>
         sint (Stop (FCFS_slice ps i)) = service_int ps (Suc i)"
proof -
  have w: "FCFS_wait ps i + ArrivalTime (ps ! i) =
           word_of_int (FCFS_wait_int ps i + sint (ArrivalTime (ps ! i)))"
    by (simp add: FCFS_wait_of_int)
  have e: "FCFS_wait ps i + ArrivalTime (ps ! i) + BurstDuration (ps ! i) =
           word_of_int (FCFS_wait_int ps i + sint (ArrivalTime (ps ! i)) + sint (BurstDuration (ps ! i)))"
    by (simp add: FCFS_wait_of_int)
  show "in_int64 (FCFS_wait_int ps i) \<Longrightarrow> sint (FCFS_wait ps i) = FCFS_wait_int ps i"
    by (simp only: FCFS_wait_of_int sint_of_int_fits)
  show "in_int64 (FCFS_wait_int ps i + sint (ArrivalTime (ps ! i))) \<Longrightarrow>
         sint (Start (FCFS_slice ps i)) = FCFS_wait_int ps i + sint (ArrivalTime (ps ! i))"
    by (simp add: FCFS_slice_def w sint_of_int_fits del: of_int_add)
  show "in_int64 (FCFS_wait_int ps i + sint (ArrivalTime (ps ! i)) + sint (BurstDuration (ps ! i))) \<Longrightarrow>
         sint (colExit (FCFS_row ps i)) =
           FCFS_wait_int ps i + sint (ArrivalTime (ps ! i)) + sint (BurstDuration (ps ! i))"
    by (simp add: FCFS_row_def e sint_of_int_fits del: of_int_add)
  show "in_int64 (service_int ps (Suc i)) \<Longrightarrow>
         sint (Stop (FCFS_slice ps i)) = service_int ps (Suc i)"
    by (simp add: FCFS_slice_def service_of_int sint_of_int_fits del: of_int_add)
qed



section \<open>Round-robin: invariants of the passes\<close>

lemma RR_body_visit:
  assumes "i < length (OGBurst s)"
  shows "RR_body s i =
     (if 0 <s BurstDuration (procs s ! i) then RR_visit s i (RR_work s i) else s)"
proof -
  have og: "OGBurst s ! i \<noteq> 0 \<Longrightarrow> (OGBurst s)[i := OGBurst s ! i] = OGBurst s"
    by simp
  show ?thesis
    using assms
    by (auto simp: RR_body_def RR_visit_def RR_work_def QuantumTime_def word_sle_eq word_sless_alt Let_def)
qed

declare RR_loop.simps [simp del]

lemma RR_body_idle:
  assumes "RR_idle s" and "i < length (procs s)"
  shows "RR_body s i = s"
proof -
  from assms have "BurstDuration (procs s ! i) \<le>s 0"
    by (simp add: RR_idle_def)
  then show ?thesis
    by (simp add: RR_body_def QuantumTime_def word_sle_eq word_sless_alt Let_def)
qed

lemma RR_fold_idle:
  "RR_idle s \<Longrightarrow> n \<le> length (procs s) \<Longrightarrow> foldl RR_body s [0..<n] = s"
  by (induction n) (simp_all add: RR_body_idle)

lemma RR_pass_idle: "RR_idle s \<Longrightarrow> RR_pass s = s"
  by (simp add: RR_pass_def RR_fold_idle)

lemma RR_idle_passes: "RR_idle (s\<lparr> passes := k \<rparr>) = RR_idle s"
  by (simp add: RR_idle_def)

lemma RR_loop_idle:
  "RR_idle s \<Longrightarrow> RR_loop s = (if passes s < 1000 then s\<lparr> passes := 1000 \<rparr> else s)"
proof (induction s rule: RR_loop.induct)
  case (1 s)
  show ?case
  proof (cases "passes s < 1000")
    case True
    have idle': "RR_idle (RR_pass s\<lparr>passes := passes s + 1\<rparr>)"
      using "1.prems" by (simp add: RR_pass_idle RR_idle_passes)
    have "RR_loop s = RR_loop (RR_pass s\<lparr>passes := passes s + 1\<rparr>)"
      using True by (subst RR_loop.simps) simp
    also have "\<dots> = (if passes s + 1 < 1000 then s\<lparr> passes := 1000 \<rparr> else s\<lparr>passes := passes s + 1\<rparr>)"
      using "1.IH" [OF True idle'] "1.prems" by (simp add: RR_pass_idle)
    also have "\<dots> = s\<lparr> passes := 1000 \<rparr>"
      using True by auto
    finally show ?thesis using True by simp
  next
    case False
    then show ?thesis by (subst RR_loop.simps) simp
  qed
qed

lemma RR_body_length:
  "length (procs (RR_body s i)) = length (procs s)"
  "length (schedule (RR_body s i)) = length (schedule s)"
  "length (OGBurst (RR_body s i)) = length (OGBurst s)"
  by (simp_all add: RR_body_def Let_def)

lemma RR_fold_invariant:
  assumes body: "\<And>s i. P s \<Longrightarrow> i < length (procs s) \<Longrightarrow> P (RR_body s i)"
  shows "P s \<Longrightarrow> \<forall>i\<in>set js. i < length (procs s) \<Longrightarrow> P (foldl RR_body s js)"
proof (induction js arbitrary: s)
  case Nil
  then show ?case by simp
next
  case (Cons j js)
  have "P (RR_body s j)"
    using Cons.prems by (simp add: body)
  moreover have "\<forall>i\<in>set js. i < length (procs (RR_body s j))"
    using Cons.prems by (simp add: RR_body_length)
  ultimately show ?case
    using Cons.IH [of "RR_body s j"] by simp
qed

lemma RR_pass_invariant:
  assumes "\<And>s i. P s \<Longrightarrow> i < length (procs s) \<Longrightarrow> P (RR_body s i)" and "P s"
  shows "P (RR_pass s)"
  unfolding RR_pass_def using assms by (intro RR_fold_invariant [where P = P]) simp_all

lemma RR_loop_invariant:
  assumes body: "\<And>s i. P s \<Longrightarrow> i < length (procs s) \<Longrightarrow> P (RR_body s i)"
    and count: "\<And>s k. P s \<Longrightarrow> P (s\<lparr> passes := k \<rparr>)"
  shows "P s \<Longrightarrow> P (RR_loop s)"
proof (induction s rule: RR_loop.induct)
  case (1 s)
  show ?case
  proof (cases "passes s < 1000")
    case True
    have "P (RR_pass s\<lparr> passes := passes s + 1 \<rparr>)"
      using "1.prems" by (intro count RR_pass_invariant [where P = P] body)
    with "1.IH" [OF True] have "P (RR_loop (RR_pass s\<lparr> passes := passes s + 1 \<rparr>))" .
    then show ?thesis
      using True by (subst RR_loop.simps) simp
  next
    case False
    then show ?thesis
      using "1.prems" by (subst RR_loop.simps) simp
  qed
qed

lemma sint_sub_quantum: "3 \<le> sint b \<Longrightarrow> sint (b - 3) = sint b - 3" for b :: int64
proof -
  assume "3 \<le> sint b"
  moreover have "sint b < 2 ^ 63"
    using sint_lt [of b] by simp
  ultimately show ?thesis
    by (simp add: sint_word_diff signed_take_bit_int_eq_self)
qed

lemma RR_frame_body:
  assumes "RR_frame ps s" and "i < length (procs s)"
  shows "RR_frame ps (RR_body s i)"
  using assms
  by (auto simp: RR_frame_def RR_body_def QuantumTime_def word_sle_eq word_sless_alt Let_def
      nth_list_update sint_sub_quantum)

lemma RR_frame_init: "RR_frame ps (RR_init ps)"
  by (simp add: RR_frame_def RR_init_def)

lemma RR_frame_final: "RR_frame ps (RRSchedule ps)"
  unfolding RRSchedule_def
  by (rule RR_loop_invariant [where P = "RR_frame ps"])
     (simp_all add: RR_frame_body RR_frame_init, simp add: RR_frame_def)

lemma RR_rows_init: "RR_rows ps (RR_init ps)"
  by (simp add: RR_rows_def RR_init_def)

lemma RR_rows_body:
  assumes inv: "RR_rows ps s" and i: "i < length (procs s)"
  shows "RR_rows ps (RR_body s i)"
proof (cases "0 <s BurstDuration (procs s ! i)")
  case False
  then have "RR_body s i = s"
    by (simp add: RR_body_def QuantumTime_def word_sle_eq word_sless_alt Let_def)
  with inv show ?thesis by simp
next
  case True
  from inv i have len: "length (procs s) = length ps" "length (schedule s) = length ps"
      "length (OGBurst s) = length ps" "i < length ps"
    by (simp_all add: RR_rows_def)
  from inv have each: "\<And>k. k < length ps \<Longrightarrow>
        ArrivalTime (procs s ! k) = ArrivalTime (ps ! k) \<and>
        (if OGBurst s ! k = 0
         then schedule s ! k = None \<and> BurstDuration (procs s ! k) = BurstDuration (ps ! k)
         else OGBurst s ! k = BurstDuration (ps ! k) \<and>
              (\<exists>row. schedule s ! k = Some row \<and> row_consistent (ps ! k) row))"
    by (simp add: RR_rows_def)
  have body: "RR_body s i = RR_visit s i (RR_work s i)"
    using True len by (simp add: RR_body_visit)
  define og where "og = (if OGBurst s ! i = 0 then BurstDuration (procs s ! i) else OGBurst s ! i)"
  have og: "og = BurstDuration (ps ! i)" "og \<noteq> 0"
    using each [OF len(4)] True by (auto simp: og_def)
  have arr: "ArrivalTime (procs s ! i) = ArrivalTime (ps ! i)"
    using each [OF len(4)] by simp
  show ?thesis
    unfolding body RR_rows_def
  proof (intro conjI allI impI)
    fix k assume k: "k < length ps"
    show "ArrivalTime (procs (RR_visit s i (RR_work s i)) ! k) = ArrivalTime (ps ! k)"
      using each [OF k] len k by (simp add: RR_visit_def Let_def nth_list_update)
    show "if OGBurst (RR_visit s i (RR_work s i)) ! k = 0
          then schedule (RR_visit s i (RR_work s i)) ! k = None \<and>
               BurstDuration (procs (RR_visit s i (RR_work s i)) ! k) = BurstDuration (ps ! k)
          else OGBurst (RR_visit s i (RR_work s i)) ! k = BurstDuration (ps ! k) \<and>
               (\<exists>row. schedule (RR_visit s i (RR_work s i)) ! k = Some row \<and>
                      row_consistent (ps ! k) row)"
    proof (cases "k = i")
      case False
      then show ?thesis
        using each [OF k] len k by (simp add: RR_visit_def Let_def)
    next
      case True
      then show ?thesis
        using og arr len
        by (simp add: RR_visit_def Let_def og_def [symmetric] row_consistent_def)
    qed
  qed (simp_all add: RR_visit_def Let_def len)
qed

lemma RR_rows_final: "RR_rows ps (RRSchedule ps)"
  unfolding RRSchedule_def
  by (rule RR_loop_invariant [where P = "RR_rows ps"])
     (simp_all add: RR_rows_body RR_rows_init, simp add: RR_rows_def)

lemma contiguous_snoc:
  assumes "contiguous g" and "g \<noteq> [] \<Longrightarrow> Start sl = Stop (last g)"
  shows "contiguous (g @ [sl])"
  unfolding contiguous_def
proof (intro allI impI)
  fix j assume j: "Suc j < length (g @ [sl])"
  show "Start ((g @ [sl]) ! Suc j) = Stop ((g @ [sl]) ! j)"
  proof (cases "Suc j < length g")
    case True
    with assms(1) show ?thesis by (simp add: contiguous_def nth_append)
  next
    case False
    with j have eq: "Suc j = length g" by simp
    then have ne: "g \<noteq> []" by auto
    have "last g = g ! j" using ne by (simp add: last_conv_nth eq [symmetric])
    with assms(2) [OF ne] eq show ?thesis by (simp add: nth_append)
  qed
qed

lemma RR_gantt_init: "RR_gantt (RR_init ps)"
  by (simp add: RR_gantt_def RR_init_def contiguous_def)

lemma RR_gantt_body:
  assumes inv: "RR_gantt s"
  shows "RR_gantt (RR_body s i)"
proof (cases "0 <s BurstDuration (procs s ! i)")
  case False
  then have "RR_body s i = s"
    by (simp add: RR_body_def QuantumTime_def word_sle_eq word_sless_alt Let_def)
  with inv show ?thesis by simp
next
  case True
  define sl where "sl = \<lparr> PID = ProcessID (procs s ! i), Start = serviceTime s,
                          Stop = serviceTime s + RR_work s i \<rparr>"
  have g: "gantt (RR_body s i) = gantt s @ [sl]"
    and st: "serviceTime (RR_body s i) = serviceTime s + RR_work s i"
    using True by (auto simp: RR_body_def RR_work_def sl_def Let_def QuantumTime_def word_sle_eq word_sless_alt)
  have sized: "quantum_sized sl"
    using True by (auto simp: quantum_sized_def sl_def RR_work_def QuantumTime_def word_sle_eq word_sless_alt)
  have start: "gantt s \<noteq> [] \<Longrightarrow> Start sl = Stop (last (gantt s))"
    using inv by (simp add: RR_gantt_def sl_def)
  have "contiguous (gantt s @ [sl])"
    using inv start by (intro contiguous_snoc) (simp_all add: RR_gantt_def)
  moreover have "Start (hd (gantt s @ [sl])) = 0"
    using inv by (cases "gantt s") (simp_all add: RR_gantt_def sl_def)
  moreover have "Stop (last (gantt s @ [sl])) = serviceTime s + RR_work s i"
    by (simp add: sl_def)
  moreover have "\<forall>x\<in>set (gantt s @ [sl]). quantum_sized x"
    using inv sized by (simp add: RR_gantt_def)
  ultimately show ?thesis
    by (simp add: RR_gantt_def g st)
qed

lemma RR_gantt_final: "RR_gantt (RRSchedule ps)"
  unfolding RRSchedule_def
  by (rule RR_loop_invariant [where P = RR_gantt])
     (simp_all add: RR_gantt_body RR_gantt_init, simp add: RR_gantt_def)

text \<open>Once a slice has been emitted the Gantt sequence stays non-empty.\<close>

lemma RR_body_gantt_nonempty: "gantt s \<noteq> [] \<Longrightarrow> gantt (RR_body s i) \<noteq> []"
  by (simp add: RR_body_def Let_def)

lemma RR_gantt_nonempty:
  assumes "ps \<noteq> []" and "\<forall>p\<in>set ps. 0 <s BurstDuration p"
  shows "gantt (RRSchedule ps) \<noteq> []"
proof -
  let ?P = "\<lambda>s. gantt s \<noteq> []"
  from assms have b0: "0 <s BurstDuration (ps ! 0)" and n: "0 < length ps"
    by (simp_all add: nth_mem)
  have first: "?P (RR_body (RR_init ps) 0)"
    using b0 by (simp add: RR_body_def RR_init_def Let_def QuantumTime_def word_sle_eq word_sless_alt)
  have idx: "[0..<length ps] = 0 # [1..<length ps]"
    using n by (simp add: upt_rec)
  have "?P (foldl RR_body (RR_body (RR_init ps) 0) [1..<length ps])"
  proof (rule RR_fold_invariant [where P = ?P])
    show "\<forall>i\<in>set [1..<length ps]. i < length (procs (RR_body (RR_init ps) 0))"
      by (simp add: RR_body_length RR_init_def)
  qed (simp_all add: first RR_body_gantt_nonempty)
  then have pass: "?P (RR_pass (RR_init ps))"
    using idx by (simp add: RR_pass_def RR_init_def)
  have loop: "RRSchedule ps = RR_loop (RR_pass (RR_init ps)\<lparr> passes := 1 \<rparr>)"
    unfolding RRSchedule_def by (subst RR_loop.simps) (simp add: RR_init_def)
  show ?thesis
    unfolding loop
  proof (rule RR_loop_invariant [where P = ?P])
    show "?P (RR_pass (RR_init ps)\<lparr> passes := 1 \<rparr>)"
      using pass by simp
  qed (simp_all add: RR_body_gantt_nonempty)
qed


section \<open>Shortest-job-first: the scans, one tick, the loop\<close>

lemma SJF_init_fold:
  "k \<le> length ps \<Longrightarrow>
   foldl SJF_init_body
      \<lparr> procs = ps, schedule = sch, gantt = g, RemainingBurst = replicate (length ps) 0,
        lastGanttIndex = li, lastGanttStartTime = ls, totalBurstTime = 0, tick = t \<rparr>
      [0..<k] =
    \<lparr> procs = ps, schedule = sch, gantt = g,
      RemainingBurst = map BurstDuration (take k ps) @ replicate (length ps - k) 0,
      lastGanttIndex = li, lastGanttStartTime = ls,
      totalBurstTime = sum_list (map BurstDuration (take k ps)), tick = t \<rparr>"
proof (induction k)
  case 0
  show ?case by simp
next
  case (Suc k)
  then have k: "k < length ps" by simp
  have upd: "(map BurstDuration (take k ps) @ replicate (length ps - k) 0)[k := BurstDuration (ps ! k)]
        = map BurstDuration (take (Suc k) ps) @ replicate (length ps - Suc k) 0"
  proof -
    from k obtain m where m: "length ps - k = Suc m"
      by (metis Suc_diff_Suc)
    then have m': "length ps - Suc k = m" by simp
    show ?thesis
      using k by (simp add: list_update_append take_Suc_conv_app_nth m m')
  qed
  show ?case
    using Suc.IH k upd by (simp add: SJF_init_body_def take_Suc_conv_app_nth)
qed

lemma SJF_init_eq:
  "SJF_init ps =
    \<lparr> procs = ps, schedule = replicate (length ps) None, gantt = [],
      RemainingBurst = map BurstDuration ps,
      lastGanttIndex = - 1, lastGanttStartTime = 0,
      totalBurstTime = sum_list (map BurstDuration ps), tick = 0 \<rparr>"
  unfolding SJF_init_def by (subst SJF_init_fold) simp_all

lemma SJF_scan_Suc:
  "SJF_scan ps rb t (Suc n) = SJF_scan_body ps rb t (SJF_scan ps rb t n) n"
  by (simp add: SJF_scan_def)

lemma SJF_best_scan: "n \<le> length ps \<Longrightarrow> SJF_best ps rb t n (SJF_scan ps rb t n)"
proof (induction n)
  case 0
  show ?case by (simp add: SJF_scan_def SJF_best_def word_sle_eq word_sless_alt)
next
  case (Suc n)
  then have n: "n < length ps" and IH: "SJF_best ps rb t n (SJF_scan ps rb t n)"
    by simp_all
  obtain idx best where acc: "SJF_scan ps rb t n = (idx, best)"
    by (cases "SJF_scan ps rb t n")
  have el: "eligible ps rb t n \<longleftrightarrow> 0 <s rb ! n \<and> ArrivalTime (ps ! n) \<le>s t"
    using n by (simp add: eligible_def)
  show ?case
  proof (cases "eligible ps rb t n \<and> rb ! n \<le>s best")
    case True
    then have new: "SJF_scan ps rb t (Suc n) = (int n, rb ! n)"
      using el by (simp add: SJF_scan_Suc acc SJF_scan_body_def)
    have "\<forall>i<Suc n. eligible ps rb t i \<longrightarrow> rb ! n \<le>s rb ! i \<and> (rb ! i = rb ! n \<longrightarrow> i \<le> n)"
      using IH True by (auto simp: acc SJF_best_def word_sle_eq word_sless_alt less_Suc_eq)
    with True IH show ?thesis
      by (simp add: new SJF_best_def word_sle_eq word_sless_alt acc)
  next
    case False
    then have same: "SJF_scan ps rb t (Suc n) = (idx, best)"
      using el by (auto simp: SJF_scan_Suc acc SJF_scan_body_def)
    from False IH show ?thesis
      unfolding same by (auto simp: SJF_best_def word_sle_eq word_sless_alt acc less_Suc_eq)
  qed
qed

lemma SJF_select_idle:
  assumes "\<forall>i. eligible ps rb t i \<longrightarrow> 100000 <s rb ! i"
  shows "SJF_select ps rb t = - 1"
proof -
  obtain idx best where acc: "SJF_scan ps rb t (length ps) = (idx, best)"
    by (cases "SJF_scan ps rb t (length ps)")
  have "SJF_best ps rb t (length ps) (idx, best)"
    using SJF_best_scan [of "length ps" ps rb t] by (simp add: acc)
  with assms have "idx = - 1"
    by (fastforce simp: SJF_best_def word_sle_eq word_sless_alt)
  then show ?thesis by (simp add: SJF_select_def acc)
qed

lemma SJF_select_min:
  assumes "eligible ps rb t k" and "rb ! k \<le>s 100000"
  defines "j \<equiv> SJF_select ps rb t"
  shows "0 \<le> j" and "eligible ps rb t (nat j)"
    and "\<forall>i. eligible ps rb t i \<longrightarrow> rb ! nat j \<le>s rb ! i \<and> (rb ! i = rb ! nat j \<longrightarrow> i \<le> nat j)"
proof -
  obtain idx best where acc: "SJF_scan ps rb t (length ps) = (idx, best)"
    by (cases "SJF_scan ps rb t (length ps)")
  have j: "j = idx" by (simp add: j_def SJF_select_def acc)
  have best: "SJF_best ps rb t (length ps) (idx, best)"
    using SJF_best_scan [of "length ps" ps rb t] by (simp add: acc)
  have k: "k < length ps" using assms(1) by (simp add: eligible_def)
  have ne: "idx \<noteq> - 1"
    using best assms(1,2) k by (auto simp: SJF_best_def word_sle_eq word_sless_alt)
  with best show "0 \<le> j" and "eligible ps rb t (nat j)"
    by (simp_all add: SJF_best_def word_sle_eq word_sless_alt j)
  show "\<forall>i. eligible ps rb t i \<longrightarrow> rb ! nat j \<le>s rb ! i \<and> (rb ! i = rb ! nat j \<longrightarrow> i \<le> nat j)"
    using best ne by (auto simp: SJF_best_def word_sle_eq word_sless_alt j eligible_def)
qed

lemma SJFP_scan_Suc:
  "SJFP_scan ps rb t (Suc n) = SJFP_scan_body ps rb t (SJFP_scan ps rb t n) n"
  by (simp add: SJFP_scan_def)

lemma SJFP_scan_idle:
  assumes "\<forall>i. \<not> eligible ps rb t i"
  shows "n \<le> length ps \<Longrightarrow> SJFP_scan ps rb t n = (- 1, 100000, 100000)"
proof (induction n)
  case 0
  show ?case by (simp add: SJFP_scan_def)
next
  case (Suc n)
  then have "\<not> (0 <s rb ! n \<and> ArrivalTime (ps ! n) \<le>s t)"
    using assms [rule_format, of n] by (simp add: eligible_def)
  with Suc show ?case
    by (auto simp: SJFP_scan_Suc SJFP_scan_body_def)
qed

lemma SJFP_select_idle:
  "\<forall>i. \<not> eligible ps rb t i \<Longrightarrow> SJFP_select ps rb t = - 1"
  by (simp add: SJFP_select_def SJFP_scan_idle)

lemma gantt_step_frame:
  assumes "gantt_step s j = Inr s1"
  shows "procs s1 = procs s" and "schedule s1 = schedule s"
    and "RemainingBurst s1 = RemainingBurst s" and "tick s1 = tick s"
    and "totalBurstTime s1 = totalBurstTime s"
  using assms by (auto simp: gantt_step_def split: if_splits sum.splits)

lemma advance_idle:
  "advance s (- 1) = Inr (s\<lparr> tick := tick s + 1, totalBurstTime := totalBurstTime s + 1 \<rparr>)"
  by (simp add: advance_def Let_def)

lemma advance_frame:
  assumes "advance s j = Inr s'"
  shows "procs s' = procs s" and "gantt s' = gantt s"
    and "lastGanttIndex s' = lastGanttIndex s"
    and "lastGanttStartTime s' = lastGanttStartTime s"
    and "tick s' = tick s + 1"
    and "length (schedule s') = length (schedule s)"
    and "length (RemainingBurst s') = length (RemainingBurst s)"
  using assms
  by (auto simp: advance_def Let_def index_def split: if_splits sum.splits)

lemma advance_run:
  assumes "advance s j = Inr s'" and "j \<noteq> - 1"
  shows "in_range (RemainingBurst s) j"
    and "RemainingBurst s' = (RemainingBurst s)[nat j := RemainingBurst s ! nat j - 1]"
    and "totalBurstTime s' = totalBurstTime s"
  using assms
  by (auto simp: advance_def Let_def index_def split: if_splits sum.splits)

lemma advance_rows:
  assumes adv: "advance s j = Inr s'" and i: "i < length (schedule s)"
    and new: "schedule s' ! i = Some row" and old: "schedule s ! i \<noteq> Some row"
  shows "row_consistent (procs s ! i) row"
proof -
  have "j \<noteq> - 1"
    using adv old new by (auto simp: advance_idle)
  with adv new old i show ?thesis
    by (auto simp: advance_def Let_def index_def in_range_def row_consistent_def
        nth_list_update split: if_splits sum.splits)
qed

lemma SJF_rows_init: "SJF_rows ps (SJF_init ps)"
  by (simp add: SJF_rows_def SJF_init_eq)

lemma SJF_rows_step:
  assumes inv: "SJF_rows ps s" and st: "tick_step sel s = Inr s'"
  shows "SJF_rows ps s'"
proof -
  from st obtain s1 where g: "gantt_step s (sel (procs s) (RemainingBurst s) (tick s)) = Inr s1"
    and a: "advance s1 (sel (procs s) (RemainingBurst s) (tick s)) = Inr s'"
    by (auto simp: tick_step_def Let_def split: sum.splits)
  note gf = gantt_step_frame [OF g] and af = advance_frame [OF a]
  have "\<And>i row. i < length ps \<Longrightarrow> schedule s' ! i = Some row \<Longrightarrow> row_consistent (ps ! i) row"
  proof -
    fix i row assume i: "i < length ps" and r: "schedule s' ! i = Some row"
    show "row_consistent (ps ! i) row"
    proof (cases "schedule s1 ! i = Some row")
      case True
      with inv i show ?thesis by (simp add: SJF_rows_def gf)
    next
      case False
      have "row_consistent (procs s1 ! i) row"
        using inv i by (intro advance_rows [OF a _ r False]) (simp add: SJF_rows_def gf)
      with inv show ?thesis by (simp add: SJF_rows_def gf)
    qed
  qed
  with inv show ?thesis
    by (simp add: SJF_rows_def af gf)
qed

lemma reach_rows: "tick_reach sel ps s \<Longrightarrow> SJF_rows ps s"
  by (induction rule: tick_reach.induct) (simp_all add: SJF_rows_init SJF_rows_step)

lemma tick_loop_invariant:
  assumes run: "tick_loop sel s = Some (Inr r)" and init: "P s"
    and step: "\<And>s s'. P s \<Longrightarrow> tick s <s totalBurstTime s \<Longrightarrow> tick_step sel s = Inr s' \<Longrightarrow> P s'"
  shows "P r \<and> \<not> tick r <s totalBurstTime r"
proof -
  let ?Q = "\<lambda>sel' s (y :: fault + sjf_state). sel' = sel \<longrightarrow> P s \<longrightarrow> (\<forall>r. y = Inr r \<longrightarrow> P r \<and> \<not> tick r <s totalBurstTime r)"
  have "?Q sel s (Inr r)"
  proof (rule tick_loop.raw_induct [where P = ?Q, OF _ run])
    fix loop sel' s y
    assume IH: "\<And>sel' s y. loop sel' s = Some y \<Longrightarrow> ?Q sel' s y"
      and body: "(if tick s <s totalBurstTime s
                  then case tick_step sel' s of Inl e \<Rightarrow> Some (Inl e) | Inr s' \<Rightarrow> loop sel' s'
                  else Some (Inr s)) = Some y"
    show "?Q sel' s y"
    proof (intro impI allI)
      fix r assume sel: "sel' = sel" and P: "P s" and y: "y = Inr r"
      show "P r \<and> \<not> tick r <s totalBurstTime r"
      proof (cases "tick s <s totalBurstTime s")
        case False
        with body y P show ?thesis by simp
      next
        case True
        with body y sel obtain s' where st: "tick_step sel s = Inr s'"
          and l: "loop sel s' = Some (Inr r)"
          by (auto split: sum.splits)
        have "P s'" using P True st by (rule step)
        with IH [OF l] show ?thesis by simp
      qed
    qed
  qed
  with init show ?thesis by simp
qed

lemma tick_loop_reach:
  assumes "tick_loop sel s = Some (Inr r)" and "tick_reach sel ps s"
  shows "tick_reach sel ps r \<and> \<not> tick r <s totalBurstTime r"
  using assms
  by (rule tick_loop_invariant [where P = "tick_reach sel ps"]) (rule tick_reach.step)

lemma SJF_run_reach:
  "tick_loop sel (SJF_init ps) = Some (Inr r) \<Longrightarrow> tick_reach sel ps r"
  using tick_loop_reach [OF _ tick_reach.start] by blast


section \<open>Consistent rows and the runs of the example\<close>

lemma row_consistent_int:
  assumes "row_consistent p row" and "row_fits row"
  shows "row_consistent_int row"
proof -
  from assms(1) have t: "colTurnaround row =
      word_of_int (sint (colWait row) + sint (colBurst row))"
    and e: "colExit row =
      word_of_int (sint (colArrival row) + sint (colWait row) + sint (colBurst row))"
    by (simp_all add: row_consistent_def)
  from assms(2) have "sint (colTurnaround row) = sint (colWait row) + sint (colBurst row)"
    and "sint (colExit row) = sint (colArrival row) + sint (colWait row) + sint (colBurst row)"
    by (simp_all only: t e row_fits_def sint_of_int_fits)
  then show ?thesis
    by (simp add: row_consistent_int_def)
qed

lemma rows_consistentI:
  assumes "length sch = length ps"
    and "\<And>i row. i < length ps \<Longrightarrow> sch ! i = Some row \<Longrightarrow> row_consistent (ps ! i) row"
  shows "rows_consistent ps sch"
  using assms by (auto simp: rows_consistent_def intro: row_consistent_int)

lemma FCFS_rows_consistent: "rows_consistent ps (schedule (FCFSSchedule ps))"
  using FCFS_inv_final [of ps]
  by (intro rows_consistentI) (auto simp: FCFS_inv_def row_consistent_def FCFS_row_def)

lemma RR_rows_consistent: "rows_consistent ps (schedule (RRSchedule ps))"
proof -
  have "RR_rows ps (RRSchedule ps)" by (rule RR_rows_final)
  then show ?thesis
    unfolding RR_rows_def
    by (intro rows_consistentI) (simp, metis option.distinct(1) option.inject)
qed

lemma reach_rows_consistent: "tick_reach sel ps s \<Longrightarrow> rows_consistent ps (schedule s)"
  using reach_rows [of sel ps s] by (intro rows_consistentI) (simp_all add: SJF_rows_def)

lemmas tick_eval =
  SJF_init_eq tick_loop.simps tick_step_def gantt_step_def advance_def index_def in_range_def
  Let_def word_sle_eq word_sless_alt

lemmas SJF_eval = SJF_select_def SJF_scan_def SJF_scan_body_def

lemmas SJFP_eval = SJFP_select_def SJFP_scan_def SJFP_scan_body_def

lemma SJF_example_run: "SJFSchedule FCFS_example = Some (Inr SJF_example_final)"
  by (simp add: SJFSchedule_def FCFS_example_def SJF_example_final_def tick_eval SJF_eval)

lemma SJFP_example_run: "SJFPrioritySchedule FCFS_example = Some (Inr SJF_example_final)"
  by (simp add: SJFPrioritySchedule_def FCFS_example_def SJF_example_final_def tick_eval SJFP_eval)

lemma rows_consistentD:
  assumes "rows_consistent ps sch" and "i < length ps" and "sch ! i = Some row"
  shows "row_consistent (ps ! i) row" and "row_fits row \<Longrightarrow> row_consistent_int row"
  using assms by (simp_all add: rows_consistent_def)

lemma RR_example_run: "RRSchedule FCFS_example = RR_example_final"
proof -
  have "RRSchedule FCFS_example = RR_loop (RR_example_final\<lparr> passes := 2 \<rparr>)"
    unfolding RRSchedule_def
    apply (subst RR_loop.simps)
    apply (subst RR_loop.simps)
    apply (simp add: RR_init_def RR_pass_def RR_body_def QuantumTime_def Let_def
        FCFS_example_def RR_example_final_def word_sle_eq word_sless_alt)
    done
  moreover have "RR_idle (RR_example_final\<lparr> passes := 2 \<rparr>)"
    by (simp add: RR_idle_def RR_example_final_def less_Suc_eq numeral_3_eq_3 word_sle_eq)
  ultimately show ?thesis
    by (simp add: RR_loop_idle) (simp add: RR_example_final_def)
qed


section \<open>Single runs, the process table, one tick, idle ticks\<close>

lemma RR_single_run:
  "RRSchedule [RR_single pid pr] =
    \<lparr> procs = [\<lparr> ProcessID = pid, ArrivalTime = 0, BurstDuration = 0, Priority = pr \<rparr>],
      schedule = [Some \<lparr> colID = pid, colPriority = pr, colBurst = 7, colArrival = 0,
                         colWait = 0, colTurnaround = 7, colExit = 7 \<rparr>],
      gantt = [\<lparr> PID = pid, Start = 0, Stop = 3 \<rparr>, \<lparr> PID = pid, Start = 3, Stop = 6 \<rparr>,
               \<lparr> PID = pid, Start = 6, Stop = 7 \<rparr>],
      serviceTime = 7, waitingTime = 0, OGBurst = [7], passes = 1000 \<rparr>"
proof -
  let ?s3 = "\<lparr> procs = [\<lparr> ProcessID = pid, ArrivalTime = 0, BurstDuration = 0, Priority = pr \<rparr>],
      schedule = [Some \<lparr> colID = pid, colPriority = pr, colBurst = 7, colArrival = 0,
                         colWait = 0, colTurnaround = 7, colExit = 7 \<rparr>],
      gantt = [\<lparr> PID = pid, Start = 0, Stop = 3 \<rparr>, \<lparr> PID = pid, Start = 3, Stop = 6 \<rparr>,
               \<lparr> PID = pid, Start = 6, Stop = 7 \<rparr>],
      serviceTime = 7, waitingTime = 0, OGBurst = [7], passes = 3 \<rparr>"
  have "RRSchedule [RR_single pid pr] = RR_loop ?s3"
    unfolding RRSchedule_def
    apply (subst RR_loop.simps)
    apply (subst RR_loop.simps)
    apply (subst RR_loop.simps)
    apply (simp add: RR_init_def RR_pass_def RR_body_def QuantumTime_def Let_def RR_single_def
        word_sle_eq word_sless_alt)
    done
  moreover have "RR_idle ?s3" by (simp add: RR_idle_def word_sle_eq)
  ultimately show ?thesis by (simp add: RR_loop_idle)
qed

lemma reach_procs: "tick_reach sel ps s \<Longrightarrow> procs s = ps"
  using reach_rows [of sel ps s] by (simp add: SJF_rows_def)

lemma RR_body_slice:
  "gantt (RR_body s i) =
     (if 0 <s BurstDuration (procs s ! i)
      then gantt s @ [\<lparr> PID = ProcessID (procs s ! i), Start = serviceTime s,
                        Stop = serviceTime s +
                          (if QuantumTime \<le>s BurstDuration (procs s ! i) then QuantumTime
                           else BurstDuration (procs s ! i)) \<rparr>]
      else gantt s)"
  by (simp add: RR_body_def QuantumTime_def Let_def word_sle_eq word_sless_alt)

lemma tick_step_run:
  assumes st: "tick_step sel s = Inr s'"
    and j: "sel (procs s) (RemainingBurst s) (tick s) = j" and ne: "j \<noteq> - 1"
  shows "RemainingBurst s' = (RemainingBurst s)[nat j := RemainingBurst s ! nat j - 1]"
    and "totalBurstTime s' = totalBurstTime s" and "tick s' = tick s + 1"
proof -
  from st j obtain s1 where g: "gantt_step s j = Inr s1" and a: "advance s1 j = Inr s'"
    by (auto simp: tick_step_def Let_def split: sum.splits)
  note gf = gantt_step_frame [OF g] and ar = advance_run [OF a ne] and af = advance_frame [OF a]
  show "RemainingBurst s' = (RemainingBurst s)[nat j := RemainingBurst s ! nat j - 1]"
    by (simp add: ar gf)
  show "totalBurstTime s' = totalBurstTime s" by (simp add: ar gf)
  show "tick s' = tick s + 1" by (simp add: af gf)
qed

lemma tick_step_idle:
  assumes st: "tick_step sel s = Inr s'"
    and j: "sel (procs s) (RemainingBurst s) (tick s) = - 1"
  shows "RemainingBurst s' = RemainingBurst s"
    and "totalBurstTime s' = totalBurstTime s + 1" and "tick s' = tick s + 1"
proof -
  from st j obtain s1 where g: "gantt_step s (- 1) = Inr s1" and a: "advance s1 (- 1) = Inr s'"
    by (auto simp: tick_step_def Let_def split: sum.splits)
  note gf = gantt_step_frame [OF g]
  from a have s': "s' = s1\<lparr> tick := tick s1 + 1, totalBurstTime := totalBurstTime s1 + 1 \<rparr>"
    by (simp add: advance_idle)
  show "RemainingBurst s' = RemainingBurst s" by (simp add: s' gf)
  show "totalBurstTime s' = totalBurstTime s + 1" by (simp add: s' gf)
  show "tick s' = tick s + 1" by (simp add: s' gf)
qed

lemma idle_select:
  assumes "\<forall>i. \<not> eligible ps rb t i" and "sel = SJF_select \<or> sel = SJFP_select"
  shows "sel ps rb t = - 1"
  using assms by (auto simp: SJF_select_idle SJFP_select_idle)

lemma idle_tick:
  assumes "\<forall>i. \<not> eligible (procs s) (RemainingBurst s) (tick s) i"
    and "sel = SJF_select \<or> sel = SJFP_select"
    and "tick_step sel s = Inr s'"
  shows "RemainingBurst s' = RemainingBurst s"
    and "totalBurstTime s' = totalBurstTime s + 1" and "tick s' = tick s + 1"
  using tick_step_idle [OF assms(3) idle_select [OF assms(1,2)]] by simp_all

lemma idle_tick_panic:
  assumes "\<forall>i. \<not> eligible (procs s) (RemainingBurst s) (tick s) i"
    and "sel = SJF_select \<or> sel = SJFP_select"
    and "lastGanttIndex s = - 1"
  shows "tick_step sel s =
     (if tick s = totalBurstTime s - 1 then Inl (IndexOutOfRange (- 1))
      else Inr (s\<lparr> tick := tick s + 1, totalBurstTime := totalBurstTime s + 1 \<rparr>))"
  using idle_select [OF assms(1,2)] assms(3)
  by (simp add: tick_step_def gantt_step_def index_def in_range_def advance_idle)


section \<open>The burst recorded by the priority scan; a burst above the bound\<close>

lemma SJFP_body_claimed:
  "BurstDuration (ps ! i) = rb ! i \<Longrightarrow>
   SJFP_scan_body ps rb t acc i = SJFP_claimed_body ps rb t acc i"
  by (cases acc) (auto simp: SJFP_scan_body_def SJFP_claimed_body_def word_sle_eq word_sless_alt)

lemma stale_reach: "tick_reach SJFP_select stale_pair stale_state"
proof -
  let ?s0 = "SJF_init stale_pair"
  let ?s1 = "?s0\<lparr> RemainingBurst := [4, 3], lastGanttIndex := 0, tick := 1 \<rparr>"
  let ?s2 = "?s0\<lparr> RemainingBurst := [3, 3], lastGanttIndex := 0, tick := 2 \<rparr>"
  have r0: "tick_reach SJFP_select stale_pair ?s0"
    by (rule tick_reach.start)
  have "tick ?s0 <s totalBurstTime ?s0" and "tick_step SJFP_select ?s0 = Inr ?s1"
    by (simp_all add: stale_pair_def tick_eval SJFP_eval)
  with r0 have r1: "tick_reach SJFP_select stale_pair ?s1"
    by (rule tick_reach.step)
  have "tick ?s1 <s totalBurstTime ?s1" and "tick_step SJFP_select ?s1 = Inr ?s2"
    by (simp_all add: stale_pair_def tick_eval SJFP_eval)
  with r1 have r2: "tick_reach SJFP_select stale_pair ?s2"
    by (rule tick_reach.step)
  have "tick ?s2 <s totalBurstTime ?s2" and "tick_step SJFP_select ?s2 = Inr stale_state"
    by (simp_all add: stale_pair_def stale_state_def tick_eval SJFP_eval)
  with r2 show ?thesis
    by (rule tick_reach.step)
qed

lemma long_job_select: "SJF_select [big_job] [100001] t = - 1"
  by (simp add: big_job_def SJF_eval word_sle_eq word_sless_alt)

lemma long_job_step:
  assumes "long_job_waiting s"
  shows "tick_step SJF_select s =
     Inr (s\<lparr> tick := tick s + 1, totalBurstTime := totalBurstTime s + 1 \<rparr>)"
  using assms
  by (simp add: long_job_waiting_def tick_step_def long_job_select gantt_step_def advance_idle)

lemma long_job_never_runs:
  "tick_reach SJF_select [big_job] s \<Longrightarrow> long_job_waiting s"
proof (induction rule: tick_reach.induct)
  case start
  show ?case by (simp add: long_job_waiting_def SJF_init_eq big_job_def)
next
  case (step s s')
  from step.IH step.hyps(3) have "s' = s\<lparr> tick := tick s + 1, totalBurstTime := totalBurstTime s + 1 \<rparr>"
    by (simp add: long_job_step)
  with step.IH show ?case
    by (simp add: long_job_waiting_def)
qed


section \<open>First-come, first-serve where the sums wrap around\<close>

lemma FCFS_overflow_row:
  "schedule (FCFSSchedule overflow_pair) ! 1 = Some overflow_row"
  "gantt (FCFSSchedule overflow_pair) ! 1 = overflow_slice"
  by (simp_all add: FCFSSchedule_def overflow_pair_def overflow_row_def overflow_slice_def
      FCFS_init_def FCFS_body_def upt_rec [of 0] upt_rec [of 1] upt_rec [of 2] Let_def
      word_sless_alt)


section \<open>The claims\<close>

text \<open>
  Claim C1 as stated fails where a sum leaves the 64-bit range. On the two processes
  (ID 1, arrival 0, burst \<open>2^63 - 1\<close>) and (ID 2, arrival 1, burst 1) the row that
  \<^verbatim>\<open>FCFSSchedule\<close> writes for process 2 has arrival 1, wait \<open>2^63 - 2\<close> and burst 1,
  which add up to \<open>2^63\<close>, and the completion time that is printed is \<open>- 2^63\<close>.
\<close>

theorem rows_identity_overflow:
  "schedule (FCFSSchedule overflow_pair) ! 1 = Some overflow_row \<and>
   sint (colExit overflow_row) = - 9223372036854775808 \<and>
   sint (colArrival overflow_row) + sint (colWait overflow_row) + sint (colBurst overflow_row) =
     9223372036854775808 \<and>
   \<not> row_consistent_int overflow_row"
proof -
  have "sint (colExit overflow_row) = - 9223372036854775808"
    and "sint (colArrival overflow_row) + sint (colWait overflow_row) + sint (colBurst overflow_row) =
     9223372036854775808"
    by (simp_all add: overflow_row_def)
  with FCFS_overflow_row show ?thesis
    by (simp add: row_consistent_int_def)
qed


text \<open>
  Claim C1, amended. Every schedule row produced by \<^verbatim>\<open>FCFSSchedule\<close>,
  \<^verbatim>\<open>SJFSchedule\<close>, \<^verbatim>\<open>SJFPrioritySchedule\<close> and \<^verbatim>\<open>RRSchedule\<close> carries the burst and
  the arrival time of its process in the input table (the burst as it was before any
  round-robin decrement) and satisfies Turnaround = Wait + Burst,
  Exit = Arrival + Wait + Burst and Turnaround = Exit - Arrival in the 64-bit arithmetic
  of the code, where sums wrap around; the same identities hold over the integers, on
  the numbers that are printed, for every row whose sums Wait + Burst and
  Arrival + Wait + Burst lie in the 64-bit range (\<^const>\<open>rows_consistent\<close>). For the two
  tick-driven schedulers the rows are those of a run that returns.
\<close>

theorem rows_identity:
  "rows_consistent ps (schedule (FCFSSchedule ps)) \<and>
   (\<forall>r. SJFSchedule ps = Some (Inr r) \<longrightarrow> rows_consistent ps (schedule r)) \<and>
   (\<forall>r. SJFPrioritySchedule ps = Some (Inr r) \<longrightarrow> rows_consistent ps (schedule r)) \<and>
   rows_consistent ps (schedule (RRSchedule ps))"
proof (intro conjI allI impI)
  fix r assume "SJFSchedule ps = Some (Inr r)"
  then have "tick_reach SJF_select ps r"
    unfolding SJFSchedule_def by (rule SJF_run_reach)
  then show "rows_consistent ps (schedule r)" by (rule reach_rows_consistent)
next
  fix r assume "SJFPrioritySchedule ps = Some (Inr r)"
  then have "tick_reach SJFP_select ps r"
    unfolding SJFPrioritySchedule_def by (rule SJF_run_reach)
  then show "rows_consistent ps (schedule r)" by (rule reach_rows_consistent)
qed (rule FCFS_rows_consistent RR_rows_consistent)+

theorem rows_identity_witness:
  "(1::nat) < length FCFS_example \<and>
   schedule (FCFSSchedule FCFS_example) ! 1 = Some (FCFS_row FCFS_example 1) \<and>
   row_consistent (FCFS_example ! 1) (FCFS_row FCFS_example 1) \<and>
   row_fits (FCFS_row FCFS_example 1) \<and>
   row_consistent_int (FCFS_row FCFS_example 1) \<and>
   SJFSchedule FCFS_example = Some (Inr SJF_example_final) \<and>
   SJFPrioritySchedule FCFS_example = Some (Inr SJF_example_final) \<and>
   schedule SJF_example_final ! 1 =
     Some \<lparr> colID = 2, colPriority = 0, colBurst = 3, colArrival = 2,
            colWait = 0, colTurnaround = 3, colExit = 5 \<rparr> \<and>
   row_consistent (FCFS_example ! 1)
     \<lparr> colID = 2, colPriority = 0, colBurst = 3, colArrival = 2,
       colWait = 0, colTurnaround = 3, colExit = 5 \<rparr> \<and>
   row_fits
     \<lparr> colID = 2, colPriority = 0, colBurst = 3, colArrival = 2,
       colWait = 0, colTurnaround = 3, colExit = 5 \<rparr> \<and>
   row_consistent_int
     \<lparr> colID = 2, colPriority = 0, colBurst = 3, colArrival = 2,
       colWait = 0, colTurnaround = 3, colExit = 5 \<rparr> \<and>
   schedule (RRSchedule FCFS_example) ! 1 =
     Some \<lparr> colID = 2, colPriority = 0, colBurst = 3, colArrival = 2,
            colWait = 1, colTurnaround = 4, colExit = 6 \<rparr> \<and>
   row_consistent (FCFS_example ! 1)
     \<lparr> colID = 2, colPriority = 0, colBurst = 3, colArrival = 2,
       colWait = 1, colTurnaround = 4, colExit = 6 \<rparr> \<and>
   row_fits
     \<lparr> colID = 2, colPriority = 0, colBurst = 3, colArrival = 2,
       colWait = 1, colTurnaround = 4, colExit = 6 \<rparr> \<and>
   row_consistent_int
     \<lparr> colID = 2, colPriority = 0, colBurst = 3, colArrival = 2,
       colWait = 1, colTurnaround = 4, colExit = 6 \<rparr>"
proof -
  note all = rows_identity [of FCFS_example]
  have len: "(1::nat) < length FCFS_example"
    by (simp add: FCFS_example_def)
  have f: "schedule (FCFSSchedule FCFS_example) ! 1 = Some (FCFS_row FCFS_example 1)"
    using FCFS_inv_final [of FCFS_example] len by (simp add: FCFS_inv_def)
  have ff: "row_fits (FCFS_row FCFS_example 1)"
    by (simp add: row_fits_def in_int64_def FCFS_row_def FCFS_example_def word_sless_alt)
  have s: "schedule SJF_example_final ! 1 =
     Some \<lparr> colID = 2, colPriority = 0, colBurst = 3, colArrival = 2,
            colWait = 0, colTurnaround = 3, colExit = 5 \<rparr>"
    by (simp add: SJF_example_final_def)
  have sf: "row_fits \<lparr> colID = 2, colPriority = 0, colBurst = 3, colArrival = 2,
       colWait = 0, colTurnaround = 3, colExit = 5 \<rparr>"
    by (simp add: row_fits_def in_int64_def)
  have r: "schedule (RRSchedule FCFS_example) ! 1 =
     Some \<lparr> colID = 2, colPriority = 0, colBurst = 3, colArrival = 2,
            colWait = 1, colTurnaround = 4, colExit = 6 \<rparr>"
    by (simp add: RR_example_run RR_example_final_def)
  have rf: "row_fits \<lparr> colID = 2, colPriority = 0, colBurst = 3, colArrival = 2,
       colWait = 1, colTurnaround = 4, colExit = 6 \<rparr>"
    by (simp add: row_fits_def in_int64_def)
  from all have cF: "rows_consistent FCFS_example (schedule (FCFSSchedule FCFS_example))"
    by (rule conjunct1)
  note cf = rows_consistentD(1) [OF cF len f] rows_consistentD(2) [OF cF len f ff]
  from all SJF_example_run have cS: "rows_consistent FCFS_example (schedule SJF_example_final)"
    by blast
  note cs = rows_consistentD(1) [OF cS len s] rows_consistentD(2) [OF cS len s sf]
  from all have cR: "rows_consistent FCFS_example (schedule (RRSchedule FCFS_example))"
    by blast
  note cr = rows_consistentD(1) [OF cR len r] rows_consistentD(2) [OF cR len r rf]
  from len f cf ff SJF_example_run SJFP_example_run s cs sf r cr rf show ?thesis
    by (intro conjI)
qed


text \<open>
  Claim C2 (fails on the code). One process with burst 100001 and arrival 0. At tick 0
  it is eligible and it is the only process, so it is the eligible process with the
  minimum remaining burst and the claim has it run. The scan of \<^verbatim>\<open>SJFSchedule\<close>
  (``Find shortest process that exists'', line 157) starts from the bound 100000 and
  takes a process only when its remaining burst is at most the bound (line 159): no
  process is selected (index -1), the tick is spent idle and the remaining burst stays
  100001.
\<close>

theorem SJF_long_job_not_selected:
  "tick (SJF_init [big_job]) <s totalBurstTime (SJF_init [big_job]) \<and>
   eligible (procs (SJF_init [big_job])) (RemainingBurst (SJF_init [big_job]))
     (tick (SJF_init [big_job])) 0 \<and>
   SJF_select (procs (SJF_init [big_job])) (RemainingBurst (SJF_init [big_job]))
     (tick (SJF_init [big_job])) = - 1 \<and>
   tick_step SJF_select (SJF_init [big_job]) =
     Inr ((SJF_init [big_job])\<lparr> tick := 1, totalBurstTime := 100002 \<rparr>)"
  by (simp add: big_job_def eligible_def tick_eval SJF_eval)


text \<open>
  Claim C3 (fails on the code). Two processes, both eligible at tick 0: process 1 with
  priority 1 and burst 5, process 2 with priority 2 and burst 3. The scan of
  \<^verbatim>\<open>SJFPrioritySchedule\<close> first takes process 1 by priority and then replaces it by
  process 2 in its burst branch, which does not look at the priority. Process 2, whose
  priority value is the higher one, is selected (index 1) and runs to its end before
  process 1 starts.
\<close>

theorem SJFP_burst_overrides_priority:
  "eligible priority_pair (map BurstDuration priority_pair) 0 0 \<and>
   eligible priority_pair (map BurstDuration priority_pair) 0 1 \<and>
   Priority (priority_pair ! 0) <s Priority (priority_pair ! 1) \<and>
   SJFP_select priority_pair (map BurstDuration priority_pair) 0 = 1 \<and>
   map_option (map_sum id gantt) (SJFPrioritySchedule priority_pair) =
     Some (Inr [\<lparr> PID = 2, Start = 0, Stop = 3 \<rparr>, \<lparr> PID = 1, Start = 3, Stop = 8 \<rparr>])"
  by (simp add: SJFPrioritySchedule_def priority_pair_def eligible_def tick_eval SJFP_eval)


text \<open>
  Claim C4 (fails on the code). On the two processes of \<^const>\<open>stale_pair\<close> the loop of
  \<^verbatim>\<open>SJFPrioritySchedule\<close> reaches tick 3 with remaining bursts 2 and 3. Both processes
  are eligible, and process 1 has the lower priority value and the smaller remaining
  burst, so by the two-branch rule of the claim process 2 replaces it in neither branch
  and process 1 (index 0) stays the best. In the code the priority branch has recorded
  the \<^verbatim>\<open>BurstDuration\<close> 5 of process 1 (line 255), not its remaining burst 2 as the
  burst branch and the scan of \<^verbatim>\<open>SJFSchedule\<close> do (lines 259, 161); the burst branch
  compares 3 with 5, and process 2 (index 1) is selected.
\<close>

theorem SJFP_records_original_burst:
  "tick_reach SJFP_select stale_pair stale_state \<and>
   tick stale_state = 3 \<and> RemainingBurst stale_state = [2, 3] \<and> procs stale_state = stale_pair \<and>
   eligible stale_pair [2, 3] 3 0 \<and> eligible stale_pair [2, 3] 3 1 \<and>
   Priority (stale_pair ! 0) <s Priority (stale_pair ! 1) \<and>
   [2, 3 :: int64] ! 0 <s [2, 3] ! 1 \<and>
   SJFP_scan stale_pair [2, 3] 3 1 = (0, 5, 1) \<and>
   SJFP_select stale_pair [2, 3] 3 = 1 \<and>
   SJFP_claimed_select stale_pair [2, 3] 3 = 0"
proof -
  have "tick stale_state = 3" "RemainingBurst stale_state = [2, 3]"
    "procs stale_state = stale_pair"
    by (simp_all add: stale_state_def SJF_init_eq)
  moreover have "eligible stale_pair [2, 3] 3 0" "eligible stale_pair [2, 3] 3 1"
    "Priority (stale_pair ! 0) <s Priority (stale_pair ! 1)" "[2, 3 :: int64] ! 0 <s [2, 3] ! 1"
    by (simp_all add: stale_pair_def eligible_def word_sle_eq word_sless_alt)
  moreover have "SJFP_scan stale_pair [2, 3] 3 1 = (0, 5, 1)"
    "SJFP_select stale_pair [2, 3] 3 = 1"
    by (simp_all add: stale_pair_def SJFP_eval word_sle_eq word_sless_alt)
  moreover have "SJFP_claimed_select stale_pair [2, 3] 3 = 0"
    by (simp add: stale_pair_def SJFP_claimed_select_def SJFP_claimed_body_def
        word_sle_eq word_sless_alt)
  ultimately show ?thesis
    using stale_reach by simp
qed


text \<open>
  Claim C5 as stated fails where a sum leaves the 64-bit range. On the two processes
  (ID 1, arrival 0, burst \<open>2^63 - 1\<close>) and (ID 2, arrival 1, burst 1) process 2 starts
  at \<open>2^63 - 1\<close> and has burst 1, so start plus burst is \<open>2^63\<close>, and the bursts add
  up to \<open>2^63\<close>; the completion time and the end of the Gantt slice that
  \<^verbatim>\<open>FCFSSchedule\<close> reports are both \<open>- 2^63\<close>.
\<close>

theorem FCFS_formula_overflow:
  "schedule (FCFSSchedule overflow_pair) ! 1 = Some overflow_row \<and>
   gantt (FCFSSchedule overflow_pair) ! 1 = overflow_slice \<and>
   sint (Start overflow_slice) + sint (BurstDuration (overflow_pair ! 1)) = 9223372036854775808 \<and>
   sint (colExit overflow_row) = - 9223372036854775808 \<and>
   service_int overflow_pair 2 = 9223372036854775808 \<and>
   sint (Stop overflow_slice) = - 9223372036854775808"
proof -
  have "sint (Start overflow_slice) + sint (BurstDuration (overflow_pair ! 1)) = 9223372036854775808"
    and "sint (colExit overflow_row) = - 9223372036854775808"
    and "service_int overflow_pair 2 = 9223372036854775808"
    and "sint (Stop overflow_slice) = - 9223372036854775808"
    by (simp_all add: overflow_row_def overflow_slice_def overflow_pair_def service_int_def)
  with FCFS_overflow_row show ?thesis
    by simp
qed


text \<open>
  Claim C5, amended. \<^verbatim>\<open>FCFSSchedule\<close> runs the processes in input order. For process
  \<open>i\<close> the waiting time is the service time so far (the bursts of the processes before
  it) minus its arrival time when the arrival time is positive, and otherwise the
  waiting time of the previous process unchanged (0 for the first process); the row of
  process \<open>i\<close> reports that waiting time, and as completion the start (waiting time
  plus arrival time) plus the burst; the \<open>i\<close>-th Gantt slice belongs to process \<open>i\<close>,
  starts at that start and stops at the service time accumulated after it. All of this
  is in the 64-bit arithmetic of the code, where sums and differences wrap around
  (\<^const>\<open>FCFS_wait\<close>, \<^const>\<open>FCFS_row\<close>, \<^const>\<open>FCFS_slice\<close>). Read over the integers
  (\<^const>\<open>FCFS_wait_int\<close>, \<^const>\<open>service_int\<close>), the waiting time, the start, the
  completion and the accumulated service time that are reported are the values of these
  formulas whenever the value in question lies in the 64-bit range. For the three
  processes (1, arrival 0, burst 5), (2, arrival 2, burst 3), (3, arrival 4, burst 2)
  the waits are 0, 3, 4 and the completions 5, 8, 10.
\<close>

theorem FCFS_formula:
  "(\<forall>i<length ps.
      schedule (FCFSSchedule ps) ! i = Some (FCFS_row ps i) \<and>
      gantt (FCFSSchedule ps) ! i = FCFS_slice ps i \<and>
      (in_int64 (FCFS_wait_int ps i) \<longrightarrow>
         sint (colWait (FCFS_row ps i)) = FCFS_wait_int ps i) \<and>
      (in_int64 (FCFS_wait_int ps i + sint (ArrivalTime (ps ! i))) \<longrightarrow>
         sint (Start (FCFS_slice ps i)) = FCFS_wait_int ps i + sint (ArrivalTime (ps ! i))) \<and>
      (in_int64 (FCFS_wait_int ps i + sint (ArrivalTime (ps ! i)) + sint (BurstDuration (ps ! i))) \<longrightarrow>
         sint (colExit (FCFS_row ps i)) =
           FCFS_wait_int ps i + sint (ArrivalTime (ps ! i)) + sint (BurstDuration (ps ! i))) \<and>
      (in_int64 (service_int ps (Suc i)) \<longrightarrow>
         sint (Stop (FCFS_slice ps i)) = service_int ps (Suc i))) \<and>
   length (gantt (FCFSSchedule ps)) = length ps \<and>
   map (map_option colWait) (schedule (FCFSSchedule FCFS_example)) = [Some 0, Some 3, Some 4] \<and>
   map (map_option colExit) (schedule (FCFSSchedule FCFS_example)) = [Some 5, Some 8, Some 10]"
proof -
  have "colWait (FCFS_row ps i) = FCFS_wait ps i" for i
    by (simp add: FCFS_row_def)
  with FCFS_inv_final [of ps] show ?thesis
    by (simp add: FCFS_inv_def FCFS_example_run FCFS_int_reading)
qed

theorem FCFS_formula_witness:
  "(1::nat) < length FCFS_example \<and>
   schedule (FCFSSchedule FCFS_example) ! 1 =
     Some \<lparr> colID = 2, colPriority = 0, colBurst = 3, colArrival = 2,
            colWait = 3, colTurnaround = 6, colExit = 8 \<rparr> \<and>
   gantt (FCFSSchedule FCFS_example) ! 1 = \<lparr> PID = 2, Start = 5, Stop = 8 \<rparr> \<and>
   FCFS_wait_int FCFS_example 1 = 3 \<and> service_int FCFS_example (Suc 1) = 8 \<and>
   in_int64 (FCFS_wait_int FCFS_example 1) \<and>
   in_int64 (FCFS_wait_int FCFS_example 1 + sint (ArrivalTime (FCFS_example ! 1))) \<and>
   in_int64 (FCFS_wait_int FCFS_example 1 + sint (ArrivalTime (FCFS_example ! 1)) +
             sint (BurstDuration (FCFS_example ! 1))) \<and>
   in_int64 (service_int FCFS_example (Suc 1)) \<and>
   sint (colWait (FCFS_row FCFS_example 1)) = 3 \<and>
   sint (Start (FCFS_slice FCFS_example 1)) = 5 \<and>
   sint (colExit (FCFS_row FCFS_example 1)) = 8 \<and>
   sint (Stop (FCFS_slice FCFS_example 1)) = 8"
proof -
  have len: "(1::nat) < length FCFS_example"
    by (simp add: FCFS_example_def)
  have row: "FCFS_row FCFS_example 1 =
      \<lparr> colID = 2, colPriority = 0, colBurst = 3, colArrival = 2,
        colWait = 3, colTurnaround = 6, colExit = 8 \<rparr>"
    by (simp add: FCFS_row_def FCFS_example_def word_sless_alt)
  have slice: "FCFS_slice FCFS_example 1 = \<lparr> PID = 2, Start = 5, Stop = 8 \<rparr>"
    by (simp add: FCFS_slice_def FCFS_example_def word_sless_alt)
  have ints: "FCFS_wait_int FCFS_example 1 = 3" "service_int FCFS_example (Suc 1) = 8"
    "sint (ArrivalTime (FCFS_example ! 1)) = 2" "sint (BurstDuration (FCFS_example ! 1)) = 3"
    by (simp_all add: FCFS_example_def service_int_def)
  have fits: "in_int64 3" "in_int64 (3 + 2)" "in_int64 (3 + 2 + 3)" "in_int64 8"
    by (simp_all add: in_int64_def)
  from FCFS_formula [of FCFS_example] len have at1:
    "schedule (FCFSSchedule FCFS_example) ! 1 = Some (FCFS_row FCFS_example 1)"
    "gantt (FCFSSchedule FCFS_example) ! 1 = FCFS_slice FCFS_example 1"
    "in_int64 (FCFS_wait_int FCFS_example 1) \<longrightarrow>
       sint (colWait (FCFS_row FCFS_example 1)) = FCFS_wait_int FCFS_example 1"
    "in_int64 (FCFS_wait_int FCFS_example 1 + sint (ArrivalTime (FCFS_example ! 1))) \<longrightarrow>
       sint (Start (FCFS_slice FCFS_example 1)) =
         FCFS_wait_int FCFS_example 1 + sint (ArrivalTime (FCFS_example ! 1))"
    "in_int64 (FCFS_wait_int FCFS_example 1 + sint (ArrivalTime (FCFS_example ! 1)) +
               sint (BurstDuration (FCFS_example ! 1))) \<longrightarrow>
       sint (colExit (FCFS_row FCFS_example 1)) =
         FCFS_wait_int FCFS_example 1 + sint (ArrivalTime (FCFS_example ! 1)) +
         sint (BurstDuration (FCFS_example ! 1))"
    "in_int64 (service_int FCFS_example (Suc 1)) \<longrightarrow>
       sint (Stop (FCFS_slice FCFS_example 1)) = service_int FCFS_example (Suc 1)"
    by blast+
  from at1(3-6) fits have vals:
    "sint (colWait (FCFS_row FCFS_example 1)) = 3"
    "sint (Start (FCFS_slice FCFS_example 1)) = 5"
    "sint (colExit (FCFS_row FCFS_example 1)) = 8"
    "sint (Stop (FCFS_slice FCFS_example 1)) = 8"
    by (simp_all only: ints)
  from len at1(1,2) ints fits vals show ?thesis
    by (simp only: row slice)
qed


text \<open>
  Claim C6 (fails on the code). \<^verbatim>\<open>SJFSchedule\<close> and \<^verbatim>\<open>SJFPrioritySchedule\<close> do not
  run to completion on every well-formed table. On the table of one process with burst 1
  and arrival 0 the first tick is also the final tick (\<open>tick = totalBurstTime - 1\<close>), the
  final-tick branch of the Gantt bookkeeping (lines 167-172, 266-271) reads
  \<^verbatim>\<open>processes[lastGanttIndex]\<close> while \<^verbatim>\<open>lastGanttIndex\<close> is still -1, and the run
  panics with an index out of range. The sibling branch (lines 173, 272) guards the same
  read with \<^verbatim>\<open>lastGanttIndex != -1\<close>.
\<close>

theorem SJF_final_tick_panics:
  "SJFSchedule [unit_job 0] = Some (Inl (IndexOutOfRange (- 1))) \<and>
   SJFPrioritySchedule [unit_job 0] = Some (Inl (IndexOutOfRange (- 1)))"
  by (simp add: SJFSchedule_def SJFPrioritySchedule_def unit_job_def tick_eval SJF_eval SJFP_eval)


text \<open>
  Claim C7 (fails on the code). One process with burst 1 that arrives at tick 5. At
  tick 0 no process is eligible, so by the claim the horizon grows by one at each of the
  ticks 0 to 4 and the process runs at tick 5. On the code tick 0 is also the final tick
  (\<open>tick = totalBurstTime - 1\<close>): the final-tick branch of the Gantt bookkeeping reads
  \<^verbatim>\<open>processes[-1]\<close> and the run panics before the horizon is extended, in both
  schedulers.
\<close>

theorem idle_final_tick_panics:
  "length (procs (SJF_init [unit_job 5])) = 1 \<and>
   \<not> eligible (procs (SJF_init [unit_job 5])) (RemainingBurst (SJF_init [unit_job 5]))
       (tick (SJF_init [unit_job 5])) 0 \<and>
   tick (SJF_init [unit_job 5]) <s totalBurstTime (SJF_init [unit_job 5]) \<and>
   tick_step SJF_select (SJF_init [unit_job 5]) = Inl (IndexOutOfRange (- 1)) \<and>
   tick_step SJFP_select (SJF_init [unit_job 5]) = Inl (IndexOutOfRange (- 1)) \<and>
   SJFSchedule [unit_job 5] = Some (Inl (IndexOutOfRange (- 1))) \<and>
   SJFPrioritySchedule [unit_job 5] = Some (Inl (IndexOutOfRange (- 1)))"
  by (simp add: SJFSchedule_def SJFPrioritySchedule_def unit_job_def eligible_def
      tick_eval SJF_eval SJFP_eval)


text \<open>
  Claim C8. For a table of exactly one process with burst 7 and arrival 0 (whatever its
  ID and priority), \<^verbatim>\<open>RRSchedule\<close> produces exactly three Gantt slices, with stops 3, 6
  and 7 (lengths 3, 3, 1), and the row of the process reports waiting time 0.
\<close>

theorem RR_single_burst7:
  "gantt (RRSchedule [RR_single pid pr]) =
     [\<lparr> PID = pid, Start = 0, Stop = 3 \<rparr>, \<lparr> PID = pid, Start = 3, Stop = 6 \<rparr>,
      \<lparr> PID = pid, Start = 6, Stop = 7 \<rparr>] \<and>
   map Stop (gantt (RRSchedule [RR_single pid pr])) = [3, 6, 7] \<and>
   map (\<lambda>sl. Stop sl - Start sl) (gantt (RRSchedule [RR_single pid pr])) = [3, 3, 1] \<and>
   map (map_option colWait) (schedule (RRSchedule [RR_single pid pr])) = [Some 0]"
  by (simp add: RR_single_run)


text \<open>
  Claim C9. \<^verbatim>\<open>FCFSSchedule\<close>, \<^verbatim>\<open>SJFSchedule\<close> and \<^verbatim>\<open>SJFPrioritySchedule\<close> leave the
  process table as it was: the table of the result is the input table, and for the two
  tick-driven schedulers so is the table of every state that the loop goes through
  (which covers the runs that do not return). \<^verbatim>\<open>RRSchedule\<close> keeps the length of the
  table and the \<^verbatim>\<open>ProcessID\<close>, \<^verbatim>\<open>ArrivalTime\<close> and \<^verbatim>\<open>Priority\<close> of every record;
  it changes only \<^verbatim>\<open>BurstDuration\<close>, which never grows.
\<close>

theorem table_frame:
  "procs (FCFSSchedule ps) = ps \<and>
   (\<forall>s. tick_reach SJF_select ps s \<longrightarrow> procs s = ps) \<and>
   (\<forall>r. SJFSchedule ps = Some (Inr r) \<longrightarrow> procs r = ps) \<and>
   (\<forall>s. tick_reach SJFP_select ps s \<longrightarrow> procs s = ps) \<and>
   (\<forall>r. SJFPrioritySchedule ps = Some (Inr r) \<longrightarrow> procs r = ps) \<and>
   length (procs (RRSchedule ps)) = length ps \<and>
   (\<forall>i<length ps.
      ProcessID (procs (RRSchedule ps) ! i) = ProcessID (ps ! i) \<and>
      ArrivalTime (procs (RRSchedule ps) ! i) = ArrivalTime (ps ! i) \<and>
      Priority (procs (RRSchedule ps) ! i) = Priority (ps ! i) \<and>
      BurstDuration (procs (RRSchedule ps) ! i) \<le>s BurstDuration (ps ! i))"
proof -
  have "procs (FCFSSchedule ps) = ps"
    using FCFS_inv_final [of ps] by (simp add: FCFS_inv_def)
  moreover have "procs r = ps" if "SJFSchedule ps = Some (Inr r)" for r
    using that unfolding SJFSchedule_def by (intro reach_procs SJF_run_reach)
  moreover have "procs r = ps" if "SJFPrioritySchedule ps = Some (Inr r)" for r
    using that unfolding SJFPrioritySchedule_def by (intro reach_procs SJF_run_reach)
  moreover note RR_frame_final [of ps, unfolded RR_frame_def]
  ultimately show ?thesis
    by (simp add: reach_procs)
qed

theorem table_frame_witness:
  "procs (FCFSSchedule FCFS_example) = FCFS_example \<and>
   tick_reach SJF_select FCFS_example (SJF_init FCFS_example) \<and>
   procs (SJF_init FCFS_example) = FCFS_example \<and>
   tick_reach SJFP_select FCFS_example (SJF_init FCFS_example) \<and>
   SJFSchedule FCFS_example = Some (Inr SJF_example_final) \<and>
   SJFPrioritySchedule FCFS_example = Some (Inr SJF_example_final) \<and>
   procs SJF_example_final = FCFS_example \<and>
   (0::nat) < length FCFS_example \<and>
   ProcessID (procs (RRSchedule FCFS_example) ! 0) = 1 \<and>
   ArrivalTime (procs (RRSchedule FCFS_example) ! 0) = 0 \<and>
   Priority (procs (RRSchedule FCFS_example) ! 0) = 0 \<and>
   BurstDuration (procs (RRSchedule FCFS_example) ! 0) \<le>s 5"
proof -
  note all = table_frame [of FCFS_example]
  have len: "(0::nat) < length FCFS_example"
    by (simp add: FCFS_example_def)
  have first: "ProcessID (FCFS_example ! 0) = 1" "ArrivalTime (FCFS_example ! 0) = 0"
    "Priority (FCFS_example ! 0) = 0" "BurstDuration (FCFS_example ! 0) = 5"
    by (simp_all add: FCFS_example_def)
  have reach: "tick_reach SJF_select FCFS_example (SJF_init FCFS_example)"
    "tick_reach SJFP_select FCFS_example (SJF_init FCFS_example)"
    by (rule tick_reach.start)+
  from all reach have "procs (SJF_init FCFS_example) = FCFS_example"
    by blast
  moreover from all SJF_example_run have "procs SJF_example_final = FCFS_example"
    by blast
  moreover from all len have
    "ProcessID (procs (RRSchedule FCFS_example) ! 0) = ProcessID (FCFS_example ! 0) \<and>
      ArrivalTime (procs (RRSchedule FCFS_example) ! 0) = ArrivalTime (FCFS_example ! 0) \<and>
      Priority (procs (RRSchedule FCFS_example) ! 0) = Priority (FCFS_example ! 0) \<and>
      BurstDuration (procs (RRSchedule FCFS_example) ! 0) \<le>s BurstDuration (FCFS_example ! 0)"
    by blast
  moreover from all have "procs (FCFSSchedule FCFS_example) = FCFS_example"
    by (rule conjunct1)
  ultimately show ?thesis
    using len reach SJF_example_run SJFP_example_run by (simp add: first)
qed


text \<open>
  Claim C10. For a non-empty table in which every burst is positive, the Gantt
  sequence of \<^verbatim>\<open>RRSchedule\<close> is non-empty and contiguous: the first slice starts at 0 and
  every later slice starts where the slice before it stops, whatever the arrival times.
  Every slice is as long as the quantum 3, or shorter and positive. More precisely
  (first part, for any state and any process of the inner loop): a visit to a process
  with a positive remaining burst appends one slice that starts at the service time so
  far and lasts the quantum or, when that is smaller, the remaining burst; a visit to a
  process without remaining burst appends nothing.
\<close>

theorem RR_gantt_contiguous:
  "gantt (RR_body s i) =
     (if 0 <s BurstDuration (procs s ! i)
      then gantt s @ [\<lparr> PID = ProcessID (procs s ! i), Start = serviceTime s,
                        Stop = serviceTime s +
                          (if QuantumTime \<le>s BurstDuration (procs s ! i) then QuantumTime
                           else BurstDuration (procs s ! i)) \<rparr>]
      else gantt s) \<and>
   (ps \<noteq> [] \<and> (\<forall>p\<in>set ps. 0 <s BurstDuration p) \<longrightarrow>
      gantt (RRSchedule ps) \<noteq> [] \<and>
      Start (hd (gantt (RRSchedule ps))) = 0 \<and>
      (\<forall>j. Suc j < length (gantt (RRSchedule ps)) \<longrightarrow>
           Start (gantt (RRSchedule ps) ! Suc j) = Stop (gantt (RRSchedule ps) ! j)) \<and>
      (\<forall>sl\<in>set (gantt (RRSchedule ps)).
           Stop sl - Start sl = QuantumTime \<or>
           (0 <s Stop sl - Start sl \<and> Stop sl - Start sl <s QuantumTime)))"
proof (intro conjI impI)
  assume wf: "ps \<noteq> [] \<and> (\<forall>p\<in>set ps. 0 <s BurstDuration p)"
  then have ne: "gantt (RRSchedule ps) \<noteq> []"
    by (simp add: RR_gantt_nonempty)
  note inv = RR_gantt_final [of ps, unfolded RR_gantt_def contiguous_def quantum_sized_def]
  from ne show "gantt (RRSchedule ps) \<noteq> []" .
  from inv ne show "Start (hd (gantt (RRSchedule ps))) = 0" by simp
  from inv show "\<forall>j. Suc j < length (gantt (RRSchedule ps)) \<longrightarrow>
           Start (gantt (RRSchedule ps) ! Suc j) = Stop (gantt (RRSchedule ps) ! j)"
    by simp
  from inv show "\<forall>sl\<in>set (gantt (RRSchedule ps)).
           Stop sl - Start sl = QuantumTime \<or>
           (0 <s Stop sl - Start sl \<and> Stop sl - Start sl <s QuantumTime)"
    by simp
qed (rule RR_body_slice)

theorem RR_gantt_contiguous_witness:
  "FCFS_example \<noteq> [] \<and> set (map BurstDuration FCFS_example) = {5, 3, 2} \<and>
   gantt (RRSchedule FCFS_example) =
     [\<lparr> PID = 1, Start = 0, Stop = 3 \<rparr>, \<lparr> PID = 2, Start = 3, Stop = 6 \<rparr>,
      \<lparr> PID = 3, Start = 6, Stop = 8 \<rparr>, \<lparr> PID = 1, Start = 8, Stop = 10 \<rparr>] \<and>
   Start (hd (gantt (RRSchedule FCFS_example))) = 0 \<and>
   Start (gantt (RRSchedule FCFS_example) ! Suc 2) = Stop (gantt (RRSchedule FCFS_example) ! 2) \<and>
   0 <s BurstDuration (procs (RR_init FCFS_example) ! 0) \<and>
   gantt (RR_body (RR_init FCFS_example) 0) = [\<lparr> PID = 1, Start = 0, Stop = 3 \<rparr>]"
proof -
  have wf: "FCFS_example \<noteq> [] \<and> (\<forall>p\<in>set FCFS_example. 0 <s BurstDuration p)"
    by (simp add: FCFS_example_def word_sless_alt)
  have bursts: "set (map BurstDuration FCFS_example) = {5, 3, 2}"
    by (simp add: FCFS_example_def)
  have g: "gantt (RRSchedule FCFS_example) =
     [\<lparr> PID = 1, Start = 0, Stop = 3 \<rparr>, \<lparr> PID = 2, Start = 3, Stop = 6 \<rparr>,
      \<lparr> PID = 3, Start = 6, Stop = 8 \<rparr>, \<lparr> PID = 1, Start = 8, Stop = 10 \<rparr>]"
    by (simp add: RR_example_run RR_example_final_def)
  have b: "0 <s BurstDuration (procs (RR_init FCFS_example) ! 0)"
    by (simp add: RR_init_def FCFS_example_def word_sless_alt)
  note c = RR_gantt_contiguous [of "RR_init FCFS_example" 0 FCFS_example]
  from c b have b': "gantt (RR_body (RR_init FCFS_example) 0) = [\<lparr> PID = 1, Start = 0, Stop = 3 \<rparr>]"
    by (simp add: RR_init_def FCFS_example_def QuantumTime_def word_sle_eq word_sless_alt)
  have j: "Suc 2 < length (gantt (RRSchedule FCFS_example))"
    by (simp add: g)
  from c wf have "Start (hd (gantt (RRSchedule FCFS_example))) = 0"
    by blast
  moreover from c wf j have
    "Start (gantt (RRSchedule FCFS_example) ! Suc 2) = Stop (gantt (RRSchedule FCFS_example) ! 2)"
    by blast
  ultimately show ?thesis
    using wf bursts g b b' by blast
qed

end
